theory Spec2Isabelle
  imports Complex_Main
begin

section \<open>Shared data: buffers, errors, outcomes\<close>

text \<open>
  A Node \<open>Buffer\<close> is a list of bytes; \<^typ>\<open>char\<close> is the 8-bit byte type.
  JavaScript numbers that the code uses as counters, window sizes and lengths are
  integers far below \<open>2^53\<close>, where double arithmetic is exact; they are modelled as
  \<^typ>\<open>int\<close>.
\<close>

type_synonym buffer = "char list"

definition digit :: "nat \<Rightarrow> char" where
  "digit d = ''0123456789abcdef'' ! d"

text \<open>\<open>Number.prototype.toString()\<close> on a non-negative integer.\<close>

fun decimal :: "nat \<Rightarrow> string" where
  "decimal n = (if n < 10 then [digit n] else decimal (n div 10) @ [digit (n mod 10)])"

definition toString :: "int \<Rightarrow> string" where
  "toString i = (if i < 0 then CHR ''-'' # decimal (nat (- i)) else decimal (nat i))"

text \<open>\<open>Buffer.prototype.toString('hex')\<close>.\<close>

definition hexByte :: "char \<Rightarrow> string" where
  "hexByte c = [digit (of_char c div 16), digit (of_char c mod 16)]"

definition toHex :: "buffer \<Rightarrow> string" where
  "toHex b = concat (map hexByte b)"

text \<open>
  \<open>Buffer.prototype.slice(start, end)\<close>: a negative index counts from the end, and both
  indices are clamped to the buffer.
\<close>

definition clampIndex :: "int \<Rightarrow> int \<Rightarrow> nat" where
  "clampIndex len i = (if i < 0 then nat (max 0 (len + i)) else nat (min len i))"

definition slice :: "buffer \<Rightarrow> int \<Rightarrow> int \<Rightarrow> buffer" where
  "slice b start end =
     (let len = int (length b); s = clampIndex len start; e = clampIndex len end
      in take (e - s) (drop s b))"

datatype amqp_error = AMQPError (condition: string) (description: string)

datatype error =
    OverCapacityError string
  | ArgumentError string
  | EncodingError string
  | NotImplementedError string
  | MalformedPayloadError string
  | VersionError string
  | TypeError string
  | Error string
  | RemoteError amqp_error

text \<open>
  What a call does: it returns a value, throws, or never returns. The state that the call
  leaves behind is paired with the outcome, because a throwing call keeps the assignments
  it made before the \<open>throw\<close>.
\<close>

datatype 'a outcome = Returns 'a | Throws error | Diverges

section \<open>Sender link\<close>

datatype link_state = DETACHED | ATTACHING | ATTACHED | DETACHING

datatype callback_policy = OnSettle | OnSent | OtherCallback string

datatype sender_settle_mode = unsettled | settled | mixed

text \<open>
  Modelled from the spec: the delivery state classes are not among the sources. The
  delivery outcomes are \<open>accepted\<close>, \<open>rejected\<close>, which carries the error, \<open>released\<close> and
  \<open>modified\<close>.
\<close>

datatype delivery_state =
  Accepted | Rejected amqp_error | Released | Modified

datatype settlement =
    Resolved_undefined
  | Resolved "delivery_state option"
  | Rejected_with error

record session_params =
  nextOutgoingId :: int
  remoteIncomingWindow :: int
  outgoingWindow :: int
  senderSettleMode :: sender_settle_mode

text \<open>
  The closure \<open>sendMessage\<close> that \<open>send\<close> builds captures the message, the delivery tag
  drawn from the session counter, and the promise's \<open>resolve\<close>/\<open>reject\<close> pair (here the
  promise's number).
\<close>

record 'm pending_send =
  ps_message :: 'm
  ps_deliveryTag :: nat
  ps_promise :: nat

record transfer_options =
  to_channel :: int
  to_handle :: int
  to_deliveryId :: int
  to_settled :: bool
  to_deliveryTag :: buffer
  to_more :: "bool option"
  to_message :: buffer

record transfer_frame =
  tf_channel :: int
  tf_handle :: int
  tf_deliveryId :: int
  tf_settled :: bool
  tf_deliveryTag :: buffer
  tf_more :: bool
  tf_message :: buffer

text \<open>
  The sender link together with the parts of its session and connection that the sender
  code reads and writes: \<open>session.channel\<close>, \<open>session.connection\<close> (present or not),
  \<open>session.policy.enableSessionFlowControl\<close>, \<open>session._sessionParams\<close>,
  \<open>session._deliveryTag\<close>, \<open>session.connection._params.maxFrameSize\<close>. Frames handed to
  \<open>connection.sendFrame\<close> are appended to \<open>sentFrames\<close>; calls of a promise's \<open>resolve\<close> and
  \<open>reject\<close> are appended to \<open>promiseLog\<close>.
\<close>

record 'm sender_link =
  linkSM :: link_state
  linkCredit :: int
  totalCredits :: int
  available :: int
  deliveryCount :: int
  linkHandle :: int
  sessionChannel :: int
  hasConnection :: bool
  enableSessionFlowControl :: bool
  sessionParams :: session_params
  sessionDeliveryTag :: nat
  connMaxFrameSize :: int
  callback :: callback_policy
  pendingSends :: "'m pending_send list"
  unsettledSends :: "int \<rightharpoonup> nat"
  sentFrames :: "transfer_frame list"
  promiseLog :: "(nat \<times> settlement) list"

definition canSend :: "'m sender_link \<Rightarrow> bool" where
  "canSend l =
     (if linkSM l \<noteq> ATTACHED then False
      else linkCredit l \<ge> 1 \<and>
           (\<not> enableSessionFlowControl l \<or> remoteIncomingWindow (sessionParams l) \<ge> 1))"

text \<open>
  Modelled from the spec: the \<open>TransferFrame\<close> constructor is not among the sources; the
  transfer performative's \<open>more\<close> flag is false unless the options set it.
\<close>

definition TransferFrame :: "transfer_options \<Rightarrow> transfer_frame" where
  "TransferFrame opts =
     \<lparr> tf_channel = to_channel opts, tf_handle = to_handle opts,
       tf_deliveryId = to_deliveryId opts, tf_settled = to_settled opts,
       tf_deliveryTag = to_deliveryTag opts,
       tf_more = (case to_more opts of None \<Rightarrow> False | Some b \<Rightarrow> b),
       tf_message = to_message opts \<rparr>"

text \<open>
  \<open>Math.ceil(messageBuffer.length / idealMessageSize)\<close>: a division by zero gives
  \<open>Infinity\<close> (or \<open>NaN\<close> for \<open>0 / 0\<close>), otherwise the ceiling of the quotient, which
  the double division gives exactly for buffer lengths.
\<close>

datatype js_count = Count int | Infinity | NaN

definition Math_ceil_div :: "int \<Rightarrow> int \<Rightarrow> js_count" where
  "Math_ceil_div len ideal =
     (if ideal = 0 then (if len = 0 then NaN else Infinity)
      else Count (- ((- len) div ideal)))"

text \<open>
  The \<open>for\<close> loop of \<open>_sendMessage\<close> for a finite \<open>messageCount\<close>: the frames sent so far
  are accumulated in order.
\<close>

function sendLoop ::
  "transfer_options \<Rightarrow> buffer \<Rightarrow> int \<Rightarrow> int \<Rightarrow> int \<Rightarrow> int \<Rightarrow> transfer_frame list
     \<Rightarrow> transfer_frame list" where
  "sendLoop topts messageBuffer idealMessageSize messageCount i bufferIdx sent =
     (if i < messageCount then
        sendLoop topts messageBuffer idealMessageSize messageCount (i + 1)
          (bufferIdx + idealMessageSize)
          (sent @ [TransferFrame (topts\<lparr> to_more := Some (i \<noteq> messageCount - 1),
              to_message := slice messageBuffer bufferIdx (bufferIdx + idealMessageSize) \<rparr>)])
      else sent)"
  by pat_completeness auto
termination
  by (relation "measure (\<lambda>(topts, b, ideal, n, i, idx, sent). nat (n - i))") auto

declare sendLoop.simps [simp del]

text \<open>
  \<open>SenderLink.prototype._sendMessage(message, options)\<close>. The only caller passes
  \<open>options = { deliveryTag }\<close>, so \<open>u.defaults\<close> fills in channel, handle, deliveryId and
  settled. \<open>FRAME_OVERHEAD\<close> (a constant of the transfer frame module) and the codec's
  encoding of a message are parameters. Reading \<open>connection._params\<close> of a session without
  a connection is a \<open>TypeError\<close>.
\<close>

definition private_sendMessage ::
  "int \<Rightarrow> ('m \<Rightarrow> buffer) \<Rightarrow> 'm \<Rightarrow> buffer \<Rightarrow> 'm sender_link \<Rightarrow> int outcome \<times> 'm sender_link" where
  "private_sendMessage FRAME_OVERHEAD encode msg tag l =
     (if linkCredit l \<le> 0 then (Throws (OverCapacityError ''Cannot send if no link credit.''), l)
      else
        let sp = sessionParams l;
            messageId = nextOutgoingId sp;
            sp1 = sp\<lparr> nextOutgoingId := nextOutgoingId sp + 1,
                      remoteIncomingWindow := remoteIncomingWindow sp - 1,
                      outgoingWindow := outgoingWindow sp - 1 \<rparr>
        in if remoteIncomingWindow sp1 < 0 \<and> enableSessionFlowControl l then
             (Throws (OverCapacityError
                (''Cannot send message - over Session window capacity ('' @
                 toString (remoteIncomingWindow sp1) @ '' window)'')),
              l\<lparr> sessionParams := sp1 \<rparr>)
           else
             let sp2 = (if remoteIncomingWindow sp1 < 0
                        then sp1\<lparr> remoteIncomingWindow := 0, outgoingWindow := 0 \<rparr> else sp1);
                 l2 = l\<lparr> sessionParams := sp2 \<rparr>;
                 messageBuffer = encode msg
             in if \<not> hasConnection l then
                  (Throws (TypeError ''Cannot read property '_params' of null''), l2)
                else
                  let topts = \<lparr> to_channel = sessionChannel l, to_handle = linkHandle l,
                                to_deliveryId = messageId,
                                to_settled = (senderSettleMode sp2 = settled),
                                to_deliveryTag = tag, to_more = None, to_message = [] \<rparr>;
                      maxFrameSize = connMaxFrameSize l;
                      frameOverhead = FRAME_OVERHEAD + int (length tag);
                      idealMessageSize = maxFrameSize - frameOverhead;
                      approximateFrameSize = int (length messageBuffer) + frameOverhead
                  in if approximateFrameSize \<ge> maxFrameSize then
                       (case Math_ceil_div (int (length messageBuffer)) idealMessageSize of
                          Infinity \<Rightarrow> (Diverges, l2)
                        | NaN \<Rightarrow> (Returns messageId, l2\<lparr> linkCredit := linkCredit l - 1 \<rparr>)
                        | Count messageCount \<Rightarrow>
                            (Returns messageId,
                             l2\<lparr> sentFrames :=
                                   sendLoop topts messageBuffer idealMessageSize messageCount
                                     0 0 (sentFrames l),
                                 linkCredit := linkCredit l - 1 \<rparr>))
                     else
                       (Returns messageId,
                        l2\<lparr> sentFrames :=
                              sentFrames l @ [TransferFrame (topts\<lparr> to_message := messageBuffer \<rparr>)],
                            linkCredit := linkCredit l - 1 \<rparr>))"

text \<open>
  The closure \<open>sendMessage(err)\<close> built by \<open>send\<close>. The delivery tag buffer is
  \<open>new Buffer(deliveryTag.toString())\<close>.
\<close>

definition sendMessage ::
  "int \<Rightarrow> ('m \<Rightarrow> buffer) \<Rightarrow> 'm pending_send \<Rightarrow> error option \<Rightarrow> 'm sender_link
     \<Rightarrow> unit outcome \<times> 'm sender_link" where
  "sendMessage FRAME_OVERHEAD encode ps err l =
     (case err of
        Some e \<Rightarrow> (Returns (), l\<lparr> promiseLog := promiseLog l @ [(ps_promise ps, Rejected_with e)] \<rparr>)
      | None \<Rightarrow>
          (case private_sendMessage FRAME_OVERHEAD encode (ps_message ps)
                  (decimal (ps_deliveryTag ps)) l of
             (Throws e, l') \<Rightarrow> (Throws e, l')
           | (Diverges, l') \<Rightarrow> (Diverges, l')
           | (Returns messageId, l') \<Rightarrow>
               (case callback l' of
                  OnSettle \<Rightarrow>
                    (Returns (),
                     l'\<lparr> unsettledSends := (unsettledSends l')(messageId \<mapsto> ps_promise ps) \<rparr>)
                | OnSent \<Rightarrow>
                    (Returns (),
                     l'\<lparr> promiseLog := promiseLog l' @ [(ps_promise ps, Resolved_undefined)] \<rparr>)
                | OtherCallback c \<Rightarrow>
                    (Returns (),
                     l'\<lparr> promiseLog := promiseLog l' @
                           [(ps_promise ps,
                             Rejected_with (ArgumentError (''Invalid sender callback policy: '' @ c)))] \<rparr>))))"

text \<open>
  \<open>SenderLink.prototype.send(msg, options)\<close>. Building the \<open>Message\<close> object (options,
  default subject, the policy's body encoder) is outside the model: \<open>msg\<close> is the built
  message. The promise that \<open>send\<close> creates and returns is numbered \<open>p\<close> by the caller. An
  exception thrown inside the promise executor rejects the promise.
\<close>

definition send ::
  "int \<Rightarrow> ('m \<Rightarrow> buffer) \<Rightarrow> 'm \<Rightarrow> nat \<Rightarrow> 'm sender_link \<Rightarrow> nat outcome \<times> 'm sender_link" where
  "send FRAME_OVERHEAD encode msg p l =
     (if \<not> hasConnection l then (Throws (Error ''Must connect before sending''), l)
      else
        let deliveryTag = sessionDeliveryTag l;
            l1 = l\<lparr> sessionDeliveryTag := deliveryTag + 1 \<rparr>;
            ps = \<lparr> ps_message = msg, ps_deliveryTag = deliveryTag, ps_promise = p \<rparr>
        in if \<not> canSend l1 then (Returns p, l1\<lparr> pendingSends := pendingSends l1 @ [ps] \<rparr>)
           else (case sendMessage FRAME_OVERHEAD encode ps None l1 of
                   (Returns u, l2) \<Rightarrow> (Returns p, l2)
                 | (Throws e, l2) \<Rightarrow>
                     (Returns p, l2\<lparr> promiseLog := promiseLog l2 @ [(p, Rejected_with e)] \<rparr>)
                 | (Diverges, l2) \<Rightarrow> (Diverges, l2)))"

lemma private_sendMessage_pendingSends:
  "pendingSends (snd (private_sendMessage fo enc m t l)) = pendingSends l"
  by (simp add: private_sendMessage_def Let_def split: js_count.splits)

lemma sendMessage_pendingSends:
  "pendingSends (snd (sendMessage fo enc ps err l)) = pendingSends l"
proof (cases err)
  case (Some e)
  then show ?thesis by (simp add: sendMessage_def)
next
  case None
  obtain r l' where r: "private_sendMessage fo enc (ps_message ps) (decimal (ps_deliveryTag ps)) l = (r, l')"
    by (cases "private_sendMessage fo enc (ps_message ps) (decimal (ps_deliveryTag ps)) l")
  then have "pendingSends l' = pendingSends l"
    using private_sendMessage_pendingSends [of fo enc "ps_message ps" "decimal (ps_deliveryTag ps)" l]
    by simp
  with None r show ?thesis
    by (cases r; cases "callback l'") (simp_all add: sendMessage_def)
qed

text \<open>
  \<open>SenderLink.prototype._dispatchPendingSends(err)\<close>: the \<open>while\<close> loop shifts one closure
  off the queue per round; an exception of the closure leaves the loop.
\<close>

function private_dispatchPendingSends ::
  "int \<Rightarrow> ('m \<Rightarrow> buffer) \<Rightarrow> error option \<Rightarrow> 'm sender_link \<Rightarrow> unit outcome \<times> 'm sender_link" where
  "private_dispatchPendingSends FRAME_OVERHEAD encode err l =
     (case pendingSends l of
        [] \<Rightarrow> (Returns (), l)
      | ps # rest \<Rightarrow>
          if canSend l then
            (case sendMessage FRAME_OVERHEAD encode ps err (l\<lparr> pendingSends := rest \<rparr>) of
               (Returns u, l') \<Rightarrow> private_dispatchPendingSends FRAME_OVERHEAD encode err l'
             | (Throws e, l') \<Rightarrow> (Throws e, l')
             | (Diverges, l') \<Rightarrow> (Diverges, l'))
          else (Returns (), l))"
  by pat_completeness auto
termination
proof (relation "measure (\<lambda>(fo, enc, err, l). length (pendingSends l))", goal_cases)
  case 1
  show ?case by simp
next
  case (2 fo enc err l ps rest x l' u)
  have "pendingSends (snd (sendMessage fo enc ps err (l\<lparr> pendingSends := rest \<rparr>))) = rest"
    by (simp add: sendMessage_pendingSends)
  moreover have "snd (sendMessage fo enc ps err (l\<lparr> pendingSends := rest \<rparr>)) = l'"
    using 2(3) by (metis snd_conv)
  ultimately show ?case using 2(1) by simp
qed

declare private_dispatchPendingSends.simps [simp del]

text \<open>
  \<open>SenderLink.prototype._flowReceived(flowFrame)\<close>; the \<open>CreditChange\<close> event is not
  recorded.
\<close>

record flow_frame =
  ff_handle :: "int option"
  ff_available :: int
  ff_deliveryCount :: int
  ff_linkCredit :: int

definition private_flowReceived ::
  "int \<Rightarrow> ('m \<Rightarrow> buffer) \<Rightarrow> flow_frame \<Rightarrow> 'm sender_link \<Rightarrow> unit outcome \<times> 'm sender_link" where
  "private_flowReceived FRAME_OVERHEAD encode flowFrame l =
     (let l1 = (if ff_handle flowFrame \<noteq> None then
                  l\<lparr> available := ff_available flowFrame,
                      deliveryCount := ff_deliveryCount flowFrame,
                      linkCredit := ff_linkCredit flowFrame,
                      totalCredits := totalCredits l + ff_linkCredit flowFrame \<rparr>
                else l)
      in private_dispatchPendingSends FRAME_OVERHEAD encode None l1)"

text \<open>
  A field of a received performative may be missing, \<open>null\<close>, or hold a value.
\<close>

datatype 'a js_field = Absent | Null | Val 'a

record disposition =
  d_first :: int
  d_last :: "int js_field"
  d_settled :: bool
  d_state :: "delivery_state option"

text \<open>\<open>details.last || first\<close>: a missing, \<open>null\<close> or zero \<open>last\<close> is falsy.\<close>

definition last_or_first :: "disposition \<Rightarrow> int" where
  "last_or_first details =
     (case d_last details of Val n \<Rightarrow> (if n = 0 then d_first details else n)
      | Absent \<Rightarrow> d_first details | Null \<Rightarrow> d_first details)"

text \<open>The resolver \<open>deferredSender(err, state)\<close> that \<open>send\<close> stores under \<open>OnSettle\<close>.\<close>

definition deferredSender :: "amqp_error option \<Rightarrow> delivery_state option \<Rightarrow> settlement" where
  "deferredSender err st =
     (case err of Some e \<Rightarrow> Rejected_with (RemoteError e) | None \<Rightarrow> Resolved st)"

function dispositionLoop ::
  "amqp_error option \<Rightarrow> delivery_state option \<Rightarrow> int \<Rightarrow> int \<Rightarrow> 'm sender_link \<Rightarrow> 'm sender_link" where
  "dispositionLoop err st lst messageId l =
     (if messageId \<le> lst then
        (case unsettledSends l messageId of
           None \<Rightarrow> dispositionLoop err st lst (messageId + 1) l
         | Some p \<Rightarrow>
             dispositionLoop err st lst (messageId + 1)
               (l\<lparr> promiseLog := promiseLog l @ [(p, deferredSender err st)],
                   unsettledSends := (unsettledSends l)(messageId := None) \<rparr>))
      else l)"
  by pat_completeness auto
termination
  by (relation "measure (\<lambda>(err, st, lst, messageId, l). nat (lst + 1 - messageId))") auto

declare dispositionLoop.simps [simp del]

text \<open>
  \<open>SenderLink.prototype._dispositionReceived(details)\<close>. \<open>err\<close> is \<open>details.state.error\<close>
  when the state is a \<open>Rejected\<close> outcome, else \<open>null\<close>.
\<close>

definition carriedError :: "delivery_state option \<Rightarrow> amqp_error option" where
  "carriedError st = (case st of Some (Rejected e) \<Rightarrow> Some e | _ \<Rightarrow> None)"

definition private_dispositionReceived :: "disposition \<Rightarrow> 'm sender_link \<Rightarrow> 'm sender_link" where
  "private_dispositionReceived details l =
     (if \<not> d_settled details then l
      else
        let err = carriedError (d_state details);
            first = d_first details;
            lst = last_or_first details
        in dispositionLoop err (d_state details) lst first l)"

text \<open>
  \<open>DispositionFrame(options)\<close> built from plain options: \<open>u.defaults\<close> copies the options
  and fills the missing ones from the given defaults. \<open>role\<close> and \<open>first\<close> are required
  (\<open>u.assertArguments\<close>; the error is recorded with the name of the missing argument).
\<close>

record disposition_options =
  o_role :: "bool option"
  o_first :: "int option"
  o_last :: "int option"
  o_settled :: "bool option"
  o_state :: "delivery_state option"
  o_batchable :: "bool option"

record disposition_frame =
  df_role :: bool
  df_first :: int
  df_last :: int
  df_settled :: bool
  df_state :: "delivery_state option"
  df_batchable :: bool

definition DispositionFrame :: "disposition_options \<Rightarrow> error + disposition_frame" where
  "DispositionFrame options =
     (case (o_role options, o_first options) of
        (Some role, Some first) \<Rightarrow>
          Inr \<lparr> df_role = role, df_first = first,
                df_last = (case o_last options of None \<Rightarrow> 0 | Some n \<Rightarrow> n),
                df_settled = (case o_settled options of None \<Rightarrow> False | Some b \<Rightarrow> b),
                df_state = o_state options,
                df_batchable = (case o_batchable options of None \<Rightarrow> False | Some b \<Rightarrow> b) \<rparr>
      | (None, _) \<Rightarrow> Inl (ArgumentError ''role'')
      | (_, None) \<Rightarrow> Inl (ArgumentError ''first''))"

subsection \<open>Notions used to state the sender's properties\<close>

text \<open>
  The settlements that one round of the disposition loop appends for delivery id \<open>k\<close>: the
  stored resolver, if there is one, is called with \<open>(err, state)\<close>.
\<close>

definition resolversFired ::
  "amqp_error option \<Rightarrow> delivery_state option \<Rightarrow> (int \<rightharpoonup> nat) \<Rightarrow> int
     \<Rightarrow> (nat \<times> settlement) list" where
  "resolversFired err st us k =
     (case us k of None \<Rightarrow> [] | Some p \<Rightarrow> [(p, deferredSender err st)])"

text \<open>A promise rejected with an \<open>OverCapacityError\<close>.\<close>

fun isOverCapacityRejection :: "nat \<times> settlement \<Rightarrow> bool" where
  "isOverCapacityRejection (q, Rejected_with (OverCapacityError e)) = True"
| "isOverCapacityRejection (q, other) = False"

text \<open>
  The frames expected for a message of several frames: \<open>n\<close> frames with payloads of \<open>k\<close>
  bytes each (the last one may be shorter), all but the last with \<open>more\<close> set.
\<close>

definition fragments :: "transfer_options \<Rightarrow> buffer \<Rightarrow> nat \<Rightarrow> nat \<Rightarrow> transfer_frame list" where
  "fragments topts buf k n =
     map (\<lambda>j. TransferFrame (topts\<lparr> to_more := Some (Suc j \<noteq> n),
            to_message := take k (drop (j * k) buf) \<rparr>)) [0..<n]"

text \<open>The two counters of the credit invariant.\<close>

definition countersNonNegative :: "'m sender_link \<Rightarrow> bool" where
  "countersNonNegative l \<longleftrightarrow> 0 \<le> linkCredit l \<and> 0 \<le> remoteIncomingWindow (sessionParams l)"

text \<open>
  A settled disposition covers delivery id \<open>k\<close> when \<open>k\<close> lies in the range that the
  loop of \<open>_dispositionReceived\<close> runs through, from \<open>first\<close> to \<open>last || first\<close>.
\<close>

definition covers :: "disposition \<Rightarrow> int \<Rightarrow> bool" where
  "covers d k \<longleftrightarrow> d_settled d \<and> d_first d \<le> k \<and> k \<le> last_or_first d"

text \<open>The calls of \<open>resolve\<close> and \<open>reject\<close> made on promise \<open>p\<close>, in order.\<close>

definition settlementsOf :: "nat \<Rightarrow> (nat \<times> settlement) list \<Rightarrow> settlement list" where
  "settlementsOf p lg = map snd (filter (\<lambda>e. fst e = p) lg)"

subsection \<open>The sender link of the tests\<close>

text \<open>
  The state of a sender link in the multi-frame send test of the client: negotiated frame
  size 512, channel 1, handle 0, next delivery id 1, next delivery tag 1, link credit 500,
  unsettled sender mode. The remaining fields are not fixed by the test.
\<close>

definition test_link :: "buffer sender_link" where
  "test_link =
     \<lparr> linkSM = ATTACHED, linkCredit = 500, totalCredits = 500, available = 0,
       deliveryCount = 1, linkHandle = 0, sessionChannel = 1, hasConnection = True,
       enableSessionFlowControl = True,
       sessionParams = \<lparr> nextOutgoingId = 1, remoteIncomingWindow = 2147483647,
                         outgoingWindow = 2147483647, senderSettleMode = unsettled \<rparr>,
       sessionDeliveryTag = 1, connMaxFrameSize = 512, callback = OnSettle,
       pendingSends = [], unsettledSends = Map.empty, sentFrames = [], promiseLog = [] \<rparr>"

section \<open>Connection\<close>

text \<open>
  Modelled from the spec: the module of constants is not among the sources. The spec gives
  the frame size bounds and the two protocol headers (\<open>"AMQP"\<close>, protocol id, major 1,
  minor 0, revision 0; protocol id 0 for AMQP and 3 for SASL).
\<close>

definition defaultMaxFrameSize :: int where
  "defaultMaxFrameSize = 4294967295"

definition minMaxFrameSize :: int where
  "minMaxFrameSize = 512"

definition amqpVersion :: buffer where
  "amqpVersion = ''AMQP'' @ [CHR 0x00, CHR 0x01, CHR 0x00, CHR 0x00]"

definition saslVersion :: buffer where
  "saslVersion = ''AMQP'' @ [CHR 0x03, CHR 0x01, CHR 0x00, CHR 0x00]"

text \<open>The defaults for \<open>channelMax\<close> and \<open>idleTimeout\<close> are parameters.\<close>

record defaults =
  defaultChannelMax :: int
  defaultIdleTimeout :: int

datatype conn_state =
    DISCONNECTED | START | IN_SASL | HDR_RCVD | HDR_SENT | HDR_EXCH | OPEN_RCVD | OPEN_SENT
  | OPENED | CLOSE_RCVD | CLOSE_SENT | DISCONNECTING

record conn_params =
  maxFrameSize :: int
  channelMax :: int
  idleTimeout :: int

text \<open>
  The fields of a received \<open>open\<close> frame that \<open>_processOpenFrame\<close> reads; a numeric field may
  be missing, and the two locale fields are only tested for presence.
\<close>

record open_frame =
  of_maxFrameSize :: "int option"
  of_channelMax :: "int option"
  of_idleTimeout :: "int option"
  of_outgoingLocales :: bool
  of_incomingLocales :: bool

datatype frame = Open open_frame | Close "amqp_error option" | Performative string

datatype conn_event = Connected | Disconnected | FrameReceived frame | ErrorReceived error

datatype transport_action =
    Transport_connect
  | Transport_write buffer
  | Transport_openFrame conn_params
  | Transport_closeFrame "amqp_error option"
  | Transport_heartbeatFrame
  | Transport_end
  | Transport_destroy

text \<open>
  The connection object, for a connection opened without a SASL layer (\<open>this.sasl\<close> stays
  unset, so the SASL branches of the receive path are not taken). \<open>trace\<close> lists the states
  of the state machine in the order entered, as a bound listener sees them; \<open>emitted\<close> the
  events passed to \<open>emit\<close>; \<open>transportLog\<close> the calls made on the transport;
  \<open>warnings\<close> the errors whose \<open>message\<close> was written with \<open>console.warn\<close> (the error
  classes, which build the message text, are not among the sources).
\<close>

record connection =
  connSM :: conn_state
  trace :: "conn_state list"
  hasTransport :: bool
  connected :: bool
  conn_buffer :: buffer
  receivedHeader :: bool
  params :: conn_params
  heartbeatInterval :: "int option"
  emitted :: "conn_event list"
  transportLog :: "transport_action list"
  warnings :: "error list"

text \<open>\<open>x || d\<close> for an optional number: missing and zero are falsy.\<close>

definition or_default :: "int option \<Rightarrow> int \<Rightarrow> int" where
  "or_default x d = (case x of None \<Rightarrow> d | Some v \<Rightarrow> if v = 0 then d else v)"

record connect_options =
  co_maxFrameSize :: "int option"
  co_channelMax :: "int option"
  co_idleTimeout :: "int option"

text \<open>\<open>new Connection(connectPolicy)\<close>.\<close>

definition Connection :: "defaults \<Rightarrow> connect_options \<Rightarrow> connection" where
  "Connection K options =
     \<lparr> connSM = DISCONNECTED, trace = [DISCONNECTED], hasTransport = False, connected = False,
       conn_buffer = [], receivedHeader = False,
       params = \<lparr> maxFrameSize = or_default (co_maxFrameSize options) defaultMaxFrameSize,
                  channelMax = or_default (co_channelMax options) (defaultChannelMax K),
                  idleTimeout = or_default (co_idleTimeout options) (defaultIdleTimeout K) \<rparr>,
       heartbeatInterval = None, emitted = [], transportLog = [], warnings = [] \<rparr>"

definition emit :: "conn_event \<Rightarrow> connection \<Rightarrow> connection" where
  "emit e c = c\<lparr> emitted := emitted c @ [e] \<rparr>"

definition transport_do :: "transport_action \<Rightarrow> connection \<Rightarrow> connection" where
  "transport_do a c = c\<lparr> transportLog := transportLog c @ [a] \<rparr>"

text \<open>\<open>Connection.prototype._terminate(hasError)\<close>.\<close>

definition private_terminate :: "bool \<Rightarrow> connection \<Rightarrow> connection" where
  "private_terminate hasError c =
     (let c1 = (if hasTransport c then
                  (let c' = transport_do Transport_end c;
                       c'' = (if hasError then transport_do Transport_destroy c' else c')
                   in c''\<lparr> hasTransport := False \<rparr>)
                else c);
          c2 = c1\<lparr> heartbeatInterval := None \<rparr>;
          c3 = c2\<lparr> connected := False \<rparr>
      in emit Disconnected c3)"

text \<open>
  \<open>Connection.prototype._processError(err)\<close>; \<open>errors.wrapProtocolError\<close> is not among the
  sources, the emitted error is recorded as the one received.
\<close>

definition private_processError :: "error \<Rightarrow> connection \<Rightarrow> connection" where
  "private_processError err c = private_terminate True (emit (ErrorReceived err) c)"

definition sendHeader :: "connection \<Rightarrow> connection" where
  "sendHeader c = transport_do (Transport_write amqpVersion) c"

definition private_sendOpenFrame :: "connection \<Rightarrow> connection" where
  "private_sendOpenFrame c = transport_do (Transport_openFrame (params c)) c"

definition private_sendCloseFrame :: "amqp_error option \<Rightarrow> connection \<Rightarrow> connection" where
  "private_sendCloseFrame err c = transport_do (Transport_closeFrame err) c"

text \<open>
  \<open>Connection.prototype._connect(address, sasl)\<close> for an address whose protocol has a
  registered transport.
\<close>

definition private_connect :: "connection \<Rightarrow> connection" where
  "private_connect c = transport_do Transport_connect (c\<lparr> hasTransport := True \<rparr>)"

text \<open>
  The state machine. An event that the current state does not handle is ignored; the
  handlers \<open>error\<close> and \<open>terminated\<close> are installed on every state except \<open>DISCONNECTED\<close>.
  A handler runs its actions and then the state changes. \<open>AMQPError.ConnectionForced\<close> is
  the condition \<open>amqp:connection:forced\<close>.
\<close>

datatype sm_event =
    Ev_connect | Ev_connected | Ev_headerReceived | Ev_success | Ev_validVersion
  | Ev_invalidVersion | Ev_sendOpen | Ev_openReceived | Ev_sendClose | Ev_closeReceived
  | Ev_invalidOptions | Ev_disconnect | Ev_disconnected | Ev_error error | Ev_terminated

definition goto :: "conn_state \<Rightarrow> connection \<Rightarrow> connection" where
  "goto s c = c\<lparr> connSM := s, trace := trace c @ [s] \<rparr>"

definition fire :: "sm_event \<Rightarrow> connection \<Rightarrow> connection" where
  "fire ev c =
     (let s = connSM c in
      case ev of
        Ev_connect \<Rightarrow> if s = DISCONNECTED then goto START (private_connect c) else c
      | Ev_connected \<Rightarrow> if s = START then goto HDR_SENT (sendHeader c) else c
      | Ev_headerReceived \<Rightarrow> if s = START then goto HDR_RCVD c else c
      | Ev_success \<Rightarrow> if s = IN_SASL then goto HDR_SENT (sendHeader c) else c
      | Ev_validVersion \<Rightarrow>
          if s = HDR_RCVD then goto HDR_EXCH (sendHeader c)
          else if s = HDR_SENT then goto HDR_EXCH c else c
      | Ev_invalidVersion \<Rightarrow>
          if s = HDR_RCVD \<or> s = HDR_SENT then goto DISCONNECTING (private_terminate False c)
          else c
      | Ev_sendOpen \<Rightarrow>
          if s = HDR_EXCH then goto OPEN_SENT (private_sendOpenFrame c)
          else if s = OPEN_RCVD then goto OPENED (private_sendOpenFrame c) else c
      | Ev_openReceived \<Rightarrow>
          if s = HDR_EXCH then goto OPEN_RCVD c
          else if s = OPEN_SENT then goto OPENED c else c
      | Ev_sendClose \<Rightarrow>
          if s = OPEN_SENT then goto DISCONNECTED (private_terminate False c)
          else if s = OPENED then goto CLOSE_SENT (private_sendCloseFrame None c)
          else if s = CLOSE_RCVD
            then goto DISCONNECTED (private_terminate False (private_sendCloseFrame None c))
          else c
      | Ev_closeReceived \<Rightarrow>
          if s = OPENED then goto CLOSE_RCVD c
          else if s = CLOSE_SENT then goto DISCONNECTED (private_terminate False c) else c
      | Ev_invalidOptions \<Rightarrow>
          if s = OPENED
            then goto CLOSE_SENT
                   (private_sendCloseFrame
                      (Some (AMQPError ''amqp:connection:forced'' ''Invalid options'')) c)
          else c
      | Ev_disconnect \<Rightarrow> if s = CLOSE_SENT then goto DISCONNECTED c else c
      | Ev_disconnected \<Rightarrow> if s = DISCONNECTING then goto DISCONNECTED c else c
      | Ev_error err \<Rightarrow>
          if s \<noteq> DISCONNECTED then goto DISCONNECTED (private_processError err c) else c
      | Ev_terminated \<Rightarrow>
          if s \<noteq> DISCONNECTED then goto DISCONNECTED (private_terminate False c) else c)"

text \<open>\<open>Connection.prototype.open\<close> and \<open>close\<close>.\<close>

definition Connection_open :: "connection \<Rightarrow> connection" where
  "Connection_open c = fire Ev_connect c"

definition Connection_close :: "connection \<Rightarrow> connection" where
  "Connection_close c = fire Ev_sendClose c"

text \<open>
  \<open>Connection.prototype._tryReceiveHeader()\<close>, called without argument on the non-SASL
  path: the expected header is \<open>constants.amqpVersion\<close>.
\<close>

definition private_tryReceiveHeader :: "connection \<Rightarrow> bool \<times> connection" where
  "private_tryReceiveHeader c =
     (if length (conn_buffer c) \<ge> length amqpVersion then
        let serverVersion = slice (conn_buffer c) 0 8;
            c1 = c\<lparr> conn_buffer := drop 8 (conn_buffer c) \<rparr>;
            c2 = (if connSM c1 = START then fire Ev_headerReceived c1 else c1);
            c3 = (if serverVersion = amqpVersion then
                    fire Ev_sendOpen (fire Ev_validVersion c2)
                  else
                    let msg = (if serverVersion = saslVersion
                               then ''Credentials Expected - SASL version received: ''
                               else ''Invalid AMQP version received: '')
                    in fire Ev_invalidVersion
                         (emit (ErrorReceived (VersionError (msg @ toHex serverVersion))) c2))
        in (True, c3\<lparr> receivedHeader := True \<rparr>)
      else (False, c))"

text \<open>
  \<open>FrameReader.read(this._buffer)\<close> is a parameter: it returns a frame, or \<open>undefined\<close>
  when the buffer holds no complete frame, or throws; in each case it leaves the buffer
  with the bytes it did not consume.
\<close>

datatype read_result = GotFrame frame buffer | NoFrame buffer | Raised error buffer

type_synonym reader = "buffer \<Rightarrow> read_result"

text \<open>\<open>Connection.prototype._tryReceiveFrame()\<close>.\<close>

definition private_tryReceiveFrame :: "reader \<Rightarrow> connection \<Rightarrow> frame option \<times> connection" where
  "private_tryReceiveFrame read c =
     (case read (conn_buffer c) of
        GotFrame frame rest \<Rightarrow> (Some frame, c\<lparr> conn_buffer := rest \<rparr>)
      | NoFrame rest \<Rightarrow> (None, c\<lparr> conn_buffer := rest \<rparr>)
      | Raised e rest \<Rightarrow>
          (None, c\<lparr> conn_buffer := rest, warnings := warnings c @ [e] \<rparr>))"

definition private_ensureLocaleCompatibility :: bool where
  "private_ensureLocaleCompatibility = True"

text \<open>
  \<open>Connection.prototype._processOpenFrame(frame)\<close> up to its last line; the result says
  whether that last line (\<open>if (this._buffer.length) this._receiveAny()\<close>) is reached.
  The heartbeat timer is recorded by its period.
\<close>

definition processOpenFrame_body :: "defaults \<Rightarrow> open_frame \<Rightarrow> connection \<Rightarrow> bool \<times> connection" where
  "processOpenFrame_body K frame c =
     (let c1 = fire Ev_openReceived c;
          c2 = (if connSM c1 = OPEN_RCVD then fire Ev_sendOpen c1 else c1);
          p = params c2;
          mfs1 = min (maxFrameSize p) (or_default (of_maxFrameSize frame) defaultMaxFrameSize);
          mfs2 = max mfs1 minMaxFrameSize;
          p' = p\<lparr> maxFrameSize := mfs2,
                  channelMax := min (channelMax p)
                                  (or_default (of_channelMax frame) (defaultChannelMax K)),
                  idleTimeout := min (idleTimeout p)
                                   (or_default (of_idleTimeout frame) (defaultIdleTimeout K)) \<rparr>;
          c3 = c2\<lparr> params := p' \<rparr>;
          valid1 = (if of_outgoingLocales frame then True \<and> private_ensureLocaleCompatibility
                    else True);
          valid = (if of_incomingLocales frame then valid1 \<and> private_ensureLocaleCompatibility
                   else valid1)
      in if \<not> valid then (False, fire Ev_invalidOptions c3)
         else
           let c4 = c3\<lparr> connected := True \<rparr>;
               c5 = c4\<lparr> heartbeatInterval := Some (idleTimeout p' div 8) \<rparr>
           in (True, emit Connected c5))"

text \<open>\<open>Connection.prototype._processCloseFrame(frame)\<close>.\<close>

definition private_processCloseFrame :: "amqp_error option \<Rightarrow> connection \<Rightarrow> connection" where
  "private_processCloseFrame err c =
     (let c1 = fire Ev_sendClose (fire Ev_closeReceived c)
      in case err of None \<Rightarrow> c1 | Some e \<Rightarrow> emit (ErrorReceived (RemoteError e)) c1)"

text \<open>
  \<open>Connection.prototype._receiveAny()\<close>, with the call from \<open>_processOpenFrame\<close> back into
  it. The loop ends when no frame can be read or a close frame was processed; with a reader
  that keeps returning frames it never ends, which is the value \<open>None\<close>.
\<close>

partial_function (option) private_receiveAny :: "defaults \<Rightarrow> reader \<Rightarrow> connection \<Rightarrow> connection option" where
  "private_receiveAny K read c =
     (if \<not> receivedHeader c then
        (if fst (private_tryReceiveHeader c)
         then private_receiveAny K read (snd (private_tryReceiveHeader c))
         else Some (snd (private_tryReceiveHeader c)))
      else
        (case private_tryReceiveFrame read c of
           (None, c1) \<Rightarrow> Some c1
         | (Some (Open f), c1) \<Rightarrow>
             (if fst (processOpenFrame_body K f c1) \<and>
                 conn_buffer (snd (processOpenFrame_body K f c1)) \<noteq> []
              then Option.bind (private_receiveAny K read (snd (processOpenFrame_body K f c1)))
                     (private_receiveAny K read)
              else private_receiveAny K read (snd (processOpenFrame_body K f c1)))
         | (Some (Close e), c1) \<Rightarrow> Some (private_processCloseFrame e c1)
         | (Some (Performative x), c1) \<Rightarrow>
             private_receiveAny K read (emit (FrameReceived (Performative x)) c1)))"

text \<open>\<open>Connection.prototype._processOpenFrame(frame)\<close> as a whole.\<close>

definition private_processOpenFrame ::
  "defaults \<Rightarrow> reader \<Rightarrow> open_frame \<Rightarrow> connection \<Rightarrow> connection option" where
  "private_processOpenFrame K read frame c =
     (let (reached, c2) = processOpenFrame_body K frame c
      in if reached \<and> conn_buffer c2 \<noteq> [] then private_receiveAny K read c2 else Some c2)"

text \<open>\<open>Connection.prototype._receiveData(buffer)\<close>.\<close>

definition private_receiveData :: "defaults \<Rightarrow> reader \<Rightarrow> buffer \<Rightarrow> connection \<Rightarrow> connection option" where
  "private_receiveData K read data c =
     private_receiveAny K read (c\<lparr> conn_buffer := conn_buffer c @ data \<rparr>)"




text \<open>
  Modelled from the spec: \<open>FrameReader.read\<close> is not among the sources. It needs the 8
  bytes of a frame header and then as many bytes as the header's size field (a big-endian
  32-bit number) announces; with fewer it returns \<open>undefined\<close> and consumes nothing. What it
  does with a complete frame is the parameter \<open>decode\<close>.
\<close>

definition readUInt32BE :: "buffer \<Rightarrow> nat" where
  "readUInt32BE b =
     ((of_char (b ! 0) * 256 + of_char (b ! 1)) * 256 + of_char (b ! 2)) * 256 + of_char (b ! 3)"

definition FrameReader_read :: "(buffer \<Rightarrow> read_result) \<Rightarrow> reader" where
  "FrameReader_read decode buf =
     (if length buf < 8 then NoFrame buf
      else if length buf < readUInt32BE buf then NoFrame buf
      else decode buf)"




subsection \<open>Connections of the tests\<close>

text \<open>
  A connection with default options after \<open>open\<close>, the transport's \<open>connect\<close> event and
  the peer's valid protocol header (as in the connection tests), and the same connection
  after the peer's \<open>open\<close> frame advertising a frame size of 512 (as in the multi-frame
  send test). The two defaults that the sources do not fix are given sample values.
\<close>

definition test_defaults :: defaults where
  "test_defaults = \<lparr> defaultChannelMax = 65535, defaultIdleTimeout = 120000 \<rparr>"

definition test_header_exchanged :: connection where
  "test_header_exchanged =
     snd (private_tryReceiveHeader
       ((fire Ev_connected (Connection_open (Connection test_defaults
           \<lparr> co_maxFrameSize = None, co_channelMax = None, co_idleTimeout = None \<rparr>)))
        \<lparr> conn_buffer := amqpVersion \<rparr>))"

definition test_opened :: connection where
  "test_opened =
     snd (processOpenFrame_body test_defaults
       \<lparr> of_maxFrameSize = Some 512, of_channelMax = None, of_idleTimeout = None,
         of_outgoingLocales = False, of_incomingLocales = False \<rparr> test_header_exchanged)"

text \<open>
  A complete frame of 9 bytes whose body is the single byte \<open>0x10\<close>, and a body decoder
  that throws on it what \<open>Codec._readFullValue\<close> throws for a constructor byte of unknown
  prefix, having consumed the frame.
\<close>

definition unknown_prefix_decode :: "buffer \<Rightarrow> read_result" where
  "unknown_prefix_decode b =
     Raised (MalformedPayloadError ''Unknown code prefix: 0x10'') (drop (readUInt32BE b) b)"

definition unknown_prefix_frame :: buffer where
  "unknown_prefix_frame =
     [CHR 0x00, CHR 0x00, CHR 0x00, CHR 0x09, CHR 0x02, CHR 0x00, CHR 0x00, CHR 0x00, CHR 0x10]"




section \<open>Codec: choosing an encoder\<close>

text \<open>
  A JavaScript number is a finite double, which is a rational, or one of \<open>NaN\<close>,
  \<open>Infinity\<close>, \<open>-Infinity\<close>.
\<close>

datatype js_number = Finite rat | NotANumber | PlusInfinity | MinusInfinity

text \<open>
  The values that \<open>encode\<close> and \<open>_encodeObject\<close> tell apart, by \<open>typeof\<close> and by the
  \<open>instanceof\<close> tests in their order. A function is given by the value it returns when
  called; a described type by its descriptor and \<open>getValue()\<close>; an object with an
  \<open>encodeOrdering\<close> array by the values of the listed fields in order (\<open>JUndefined\<close> for a
  missing one); a forced type by its type name and value. \<open>JEncodable\<close> is an object with
  an \<open>encode\<close> method of its own, \<open>JMap\<close> any other object.
\<close>

datatype js_value =
    JNull
  | JUndefined
  | JBoolean bool
  | JString string
  | JNumber js_number
  | JSymbolValue string
  | JFunction js_value
  | JDescribedType js_value js_value
  | JOrdered "js_value list"
  | JBuffer buffer
  | JAMQPArray "js_value list"
  | JArray "js_value list"
  | JDate int
  | JForcedType string js_value
  | JAMQPSymbol string
  | JInt64 int
  | JEncodable string
  | JMap "(string \<times> js_value) list"

text \<open>
  What a call appends to the buffer builder: a byte, or whatever the named encoder of the
  type table (or the object's own \<open>encode\<close>) writes for the value handed to it. The
  encoders themselves are not among the sources.
\<close>

datatype encode_action =
    AppendUInt8 nat
  | Encoder string js_value
  | OwnEncode string

text \<open>JavaScript truthiness, for \<open>value.getValue() || []\<close>.\<close>

fun truthy :: "js_value \<Rightarrow> bool" where
  "truthy JNull = False"
| "truthy JUndefined = False"
| "truthy (JBoolean b) = b"
| "truthy (JString s) = (s \<noteq> [])"
| "truthy (JNumber n) = (n \<noteq> Finite 0 \<and> n \<noteq> NotANumber)"
| "truthy v = True"

text \<open>The choice of \<open>typeName\<close> in the \<open>'number'\<close> case of \<open>encode\<close>.\<close>

definition number_typeName :: "js_number \<Rightarrow> string" where
  "number_typeName n =
     (case n of
        Finite q \<Rightarrow>
          if q = of_int \<lfloor>q\<rfloor> then (if \<bar>q\<bar> < 2147483647 then ''int'' else ''long'')
          else ''double''
      | _ \<Rightarrow> ''double'')"

text \<open>\<open>!!forceType\<close>: a missing or empty type name is falsy.\<close>

definition forced :: "string option \<Rightarrow> bool" where
  "forced forceType = (case forceType of None \<Rightarrow> False | Some t \<Rightarrow> t \<noteq> [])"

text \<open>
  \<open>Codec.prototype.encode(value, buffer, forceType)\<close> and \<open>_encodeObject\<close>. The result is
  what was appended to the buffer, and the error if the call threw. \<open>types\<close> says which
  names the type table has (\<open>types.hasOwnProperty\<close>). The message of the error for an
  undefined field of an \<open>encodeOrdering\<close>, which quotes the field and the object, is cut
  short.
\<close>

function encode :: "(string \<Rightarrow> bool) \<Rightarrow> js_value \<Rightarrow> string option \<Rightarrow> encode_action list \<times> error option"
  and encodeObject :: "(string \<Rightarrow> bool) \<Rightarrow> js_value \<Rightarrow> encode_action list \<times> error option" where
  "encode types value forceType =
     (if value = JNull then ([Encoder ''null'' value], None)
      else if forced forceType then
        (if \<not> types (the forceType) then ([], Some (EncodingError (the forceType)))
         else ([Encoder (the forceType) value], None))
      else
        (case value of
           JBoolean b \<Rightarrow> ([Encoder ''boolean'' value], None)
         | JString s \<Rightarrow> ([Encoder ''string'' value], None)
         | JFunction result \<Rightarrow> encode types result forceType
         | JNumber n \<Rightarrow>
             (let typeName = number_typeName n
              in if \<not> types typeName
                 then ([], Some (NotImplementedError (''encode('' @ typeName @ '')'')))
                 else ([Encoder typeName value], None))
         | JUndefined \<Rightarrow> ([], Some (NotImplementedError ''encode(undefined)''))
         | JSymbolValue s \<Rightarrow> ([], Some (NotImplementedError ''encode(symbol)''))
         | _ \<Rightarrow> encodeObject types value))"
| "encodeObject types value =
     (case value of
        JDescribedType descriptor v \<Rightarrow>
          (let descriptorEncoder = (case descriptor of JNumber n \<Rightarrow> ''ulong'' | _ \<Rightarrow> ''symbol'');
               (rest, err) = encode types (if truthy v then v else JArray []) None
           in ([AppendUInt8 0, Encoder descriptorEncoder descriptor] @ rest, err))
      | JOrdered asList \<Rightarrow>
          (if JUndefined \<in> set asList
           then ([], Some (EncodingError ''Encoding map as list failed''))
           else encode types (JArray asList) None)
      | JBuffer b \<Rightarrow> ([Encoder ''binary'' value], None)
      | JAMQPArray xs \<Rightarrow> ([Encoder ''array'' value], None)
      | JArray xs \<Rightarrow> ([Encoder ''list'' value], None)
      | JDate t \<Rightarrow> ([Encoder ''timestamp'' (JInt64 t)], None)
      | JForcedType typeName v \<Rightarrow> encode types v (Some typeName)
      | JAMQPSymbol contents \<Rightarrow> ([Encoder ''symbol'' (JString contents)], None)
      | JInt64 i \<Rightarrow> ([Encoder (if i < 0 then ''long'' else ''ulong'') value], None)
      | JEncodable name \<Rightarrow> ([OwnEncode name], None)
      | _ \<Rightarrow> ([Encoder ''map'' value], None))"
  by pat_completeness auto
termination
  by (relation "measure (\<lambda>x. case x of
          Inl (types, v, ft) \<Rightarrow> (case v of JArray xs \<Rightarrow> 1 | _ \<Rightarrow> 4 * size v + 3)
        | Inr (types, v) \<Rightarrow> (case v of JArray xs \<Rightarrow> 0 | _ \<Rightarrow> 4 * size v + 2))")
     (auto split: js_value.splits)

declare encode.simps [simp del] encodeObject.simps [simp del]

text \<open>
  Modelled from the spec: the type table is not among the sources; its names are the
  primitive types of the data model. The entries that the table also keeps under the
  format codes, for decoding, are left out.
\<close>

definition spec_types :: "string \<Rightarrow> bool" where
  "spec_types t \<longleftrightarrow> t \<in> set [''null'', ''boolean'', ''ubyte'', ''ushort'', ''uint'', ''ulong'',
     ''byte'', ''short'', ''int'', ''long'', ''float'', ''double'', ''decimal32'', ''decimal64'',
     ''decimal128'', ''char'', ''timestamp'', ''uuid'', ''binary'', ''string'', ''symbol'',
     ''list'', ''map'', ''array'']"

section \<open>Properties of the sender link\<close>

subsection \<open>When a link can send, and queueing\<close>

lemma canSend_iff:
  "canSend l \<longleftrightarrow>
     linkSM l = ATTACHED \<and> linkCredit l \<ge> 1 \<and>
     (enableSessionFlowControl l \<longrightarrow> remoteIncomingWindow (sessionParams l) \<ge> 1)"
  by (auto simp: canSend_def)

lemma canSend_sessionDeliveryTag [simp]: "canSend (l\<lparr> sessionDeliveryTag := t \<rparr>) = canSend l"
  by (simp add: canSend_def)

lemma canSend_pendingSends [simp]: "canSend (l\<lparr> pendingSends := q \<rparr>) = canSend l"
  by (simp add: canSend_def)

lemma send_queues:
  "hasConnection l \<Longrightarrow> \<not> canSend l \<Longrightarrow>
   send fo enc msg p l =
     (Returns p,
      l\<lparr> sessionDeliveryTag := sessionDeliveryTag l + 1,
          pendingSends := pendingSends l @
            [\<lparr> ps_message = msg, ps_deliveryTag = sessionDeliveryTag l, ps_promise = p \<rparr>] \<rparr>)"
  by (simp add: send_def Let_def)

lemma send_without_connection:
  "\<not> hasConnection l \<Longrightarrow>
   send fo enc msg p l = (Throws (Error ''Must connect before sending''), l)"
  by (simp add: send_def)

text \<open>
  C6: \<open>canSend()\<close> is true if and only if the link is attached, \<open>linkCredit \<ge> 1\<close> and,
  when session flow control is enabled, \<open>remoteIncomingWindow \<ge> 1\<close>. When \<open>send\<close> is called
  (on a session that has a connection, which \<open>send\<close> requires before anything else)
  while \<open>canSend()\<close> is false, the closure is appended to \<open>pendingSends\<close>, no frame is
  sent and no promise is settled; the only other change is the advanced delivery-tag
  counter.
\<close>

theorem canSend_and_send_queueing:
  "(canSend l \<longleftrightarrow>
      linkSM l = ATTACHED \<and> linkCredit l \<ge> 1 \<and>
      (enableSessionFlowControl l \<longrightarrow> remoteIncomingWindow (sessionParams l) \<ge> 1)) \<and>
   (hasConnection l \<and> \<not> canSend l \<longrightarrow>
      send fo enc msg p l =
        (Returns p,
         l\<lparr> sessionDeliveryTag := sessionDeliveryTag l + 1,
             pendingSends := pendingSends l @
               [\<lparr> ps_message = msg, ps_deliveryTag = sessionDeliveryTag l, ps_promise = p \<rparr>] \<rparr>))"
  using canSend_iff [of l] send_queues [of l fo enc msg p]
  by blast

theorem canSend_and_send_queueing_witness:
  "hasConnection (test_link\<lparr> linkCredit := 0 \<rparr>) \<and> \<not> canSend (test_link\<lparr> linkCredit := 0 \<rparr>) \<and>
   enableSessionFlowControl (test_link\<lparr> linkCredit := 0 \<rparr>) \<and>
   fst (send 29 id ''abc'' 7 (test_link\<lparr> linkCredit := 0 \<rparr>)) = Returns 7 \<and>
   pendingSends (snd (send 29 id ''abc'' 7 (test_link\<lparr> linkCredit := 0 \<rparr>))) =
     [\<lparr> ps_message = ''abc'', ps_deliveryTag = 1, ps_promise = 7 \<rparr>] \<and>
   sentFrames (snd (send 29 id ''abc'' 7 (test_link\<lparr> linkCredit := 0 \<rparr>))) = [] \<and>
   promiseLog (snd (send 29 id ''abc'' 7 (test_link\<lparr> linkCredit := 0 \<rparr>))) = []"
  using canSend_and_send_queueing [of "test_link\<lparr> linkCredit := 0 \<rparr>" 29 id "''abc''" 7]
  by (simp add: test_link_def)

subsection \<open>No over-capacity error after \<open>canSend()\<close>\<close>

lemma private_sendMessage_no_overcapacity:
  "canSend l \<Longrightarrow> fst (private_sendMessage fo enc m t l) \<noteq> Throws (OverCapacityError e)"
  by (auto simp: canSend_def private_sendMessage_def Let_def split: js_count.splits if_splits)

lemma private_sendMessage_promiseLog:
  "promiseLog (snd (private_sendMessage fo enc m t l)) = promiseLog l"
  by (simp add: private_sendMessage_def Let_def split: js_count.splits)

lemma sendMessage_no_overcapacity:
  "canSend l \<Longrightarrow> fst (sendMessage fo enc ps err l) \<noteq> Throws (OverCapacityError e)"
  using private_sendMessage_no_overcapacity [of l fo enc "ps_message ps" "decimal (ps_deliveryTag ps)" e]
  by (cases "private_sendMessage fo enc (ps_message ps) (decimal (ps_deliveryTag ps)) l")
     (auto simp: sendMessage_def split: option.splits outcome.splits callback_policy.splits)

lemma sendMessage_None_log:
  "filter isOverCapacityRejection (promiseLog (snd (sendMessage fo enc ps None l))) =
   filter isOverCapacityRejection (promiseLog l)"
proof -
  obtain r l' where r: "private_sendMessage fo enc (ps_message ps) (decimal (ps_deliveryTag ps)) l = (r, l')"
    by (cases "private_sendMessage fo enc (ps_message ps) (decimal (ps_deliveryTag ps)) l")
  then have "promiseLog l' = promiseLog l"
    using private_sendMessage_promiseLog [of fo enc "ps_message ps" "decimal (ps_deliveryTag ps)" l]
    by simp
  with r show ?thesis
    by (cases r; cases "callback l'") (auto simp: sendMessage_def)
qed

lemma send_no_overcapacity:
  "fst (send fo enc m p l) \<noteq> Throws (OverCapacityError e)"
  by (cases "sendMessage fo enc \<lparr> ps_message = m, ps_deliveryTag = sessionDeliveryTag l, ps_promise = p \<rparr>
        None (l\<lparr> sessionDeliveryTag := sessionDeliveryTag l + 1 \<rparr>)")
     (auto simp: send_def Let_def split: outcome.splits)

lemma send_rejects_no_overcapacity:
  "filter isOverCapacityRejection (promiseLog (snd (send fo enc m p l))) =
   filter isOverCapacityRejection (promiseLog l)"
proof (cases "hasConnection l \<and> canSend l")
  case False
  then show ?thesis by (auto simp: send_def Let_def split: if_splits)
next
  case True
  let ?l1 = "l\<lparr> sessionDeliveryTag := sessionDeliveryTag l + 1 \<rparr>"
  let ?ps = "\<lparr> ps_message = m, ps_deliveryTag = sessionDeliveryTag l, ps_promise = p \<rparr>"
  obtain r l2 where r: "sendMessage fo enc ?ps None ?l1 = (r, l2)"
    by (cases "sendMessage fo enc ?ps None ?l1")
  have c: "canSend ?l1" using True by simp
  have nt: "\<And>e. r \<noteq> Throws (OverCapacityError e)"
    using sendMessage_no_overcapacity [OF c, of fo enc ?ps None] r by simp
  have lg: "filter isOverCapacityRejection (promiseLog l2) =
            filter isOverCapacityRejection (promiseLog l)"
    using sendMessage_None_log [of fo enc ?ps ?l1] r by simp
  show ?thesis
  proof (cases r)
    case (Returns u)
    with True r lg show ?thesis by (simp add: send_def Let_def)
  next
    case (Throws x)
    with nt have "\<not> isOverCapacityRejection (p, Rejected_with x)" by (cases x) auto
    with Throws True r lg show ?thesis by (simp add: send_def Let_def)
  next
    case Diverges
    with True r lg show ?thesis by (simp add: send_def Let_def)
  qed
qed

lemma dispatch_no_overcapacity:
  "fst (private_dispatchPendingSends fo enc err l) \<noteq> Throws (OverCapacityError e)"
proof (induction fo enc err l rule: private_dispatchPendingSends.induct)
  case (1 fo enc err l)
  show ?case
  proof (cases "pendingSends l")
    case Nil
    then show ?thesis by (simp add: private_dispatchPendingSends.simps)
  next
    case (Cons ps rest)
    show ?thesis
    proof (cases "canSend l")
      case False
      with Cons show ?thesis by (simp add: private_dispatchPendingSends.simps)
    next
      case True
      obtain r l' where r: "sendMessage fo enc ps err (l\<lparr> pendingSends := rest \<rparr>) = (r, l')"
        by (cases "sendMessage fo enc ps err (l\<lparr> pendingSends := rest \<rparr>)")
      have nt: "r \<noteq> Throws (OverCapacityError e)"
        using sendMessage_no_overcapacity [of "l\<lparr> pendingSends := rest \<rparr>" fo enc ps err e] True r
        by simp
      show ?thesis
      proof (cases r)
        case (Returns u)
        with 1 [OF Cons True] r Cons True show ?thesis
          by (simp add: private_dispatchPendingSends.simps [of fo enc err l])
      next
        case (Throws x)
        with nt r Cons True show ?thesis
          by (simp add: private_dispatchPendingSends.simps [of fo enc err l])
      next
        case Diverges
        with r Cons True show ?thesis
          by (simp add: private_dispatchPendingSends.simps [of fo enc err l])
      qed
    qed
  qed
qed

text \<open>
  C9: when \<open>canSend()\<close> holds, the guards of both \<open>OverCapacityError\<close> throws of
  \<open>_sendMessage\<close> are false and the call does not throw that error; \<open>send\<close> and
  \<open>_dispatchPendingSends\<close>, which call \<open>_sendMessage\<close> only right after \<open>canSend()\<close>
  returned true, never throw it and \<open>send\<close> never rejects a promise with it.
\<close>

theorem overcapacity_unreachable_after_canSend:
  "(canSend l \<longrightarrow>
      0 < linkCredit l \<and>
      (enableSessionFlowControl l \<longrightarrow> 0 \<le> remoteIncomingWindow (sessionParams l) - 1) \<and>
      (\<forall>e. fst (private_sendMessage fo enc m t l) \<noteq> Throws (OverCapacityError e))) \<and>
   (\<forall>e. fst (send fo enc m p l) \<noteq> Throws (OverCapacityError e)) \<and>
   filter isOverCapacityRejection (promiseLog (snd (send fo enc m p l))) =
     filter isOverCapacityRejection (promiseLog l) \<and>
   (\<forall>e. fst (private_dispatchPendingSends fo enc err l) \<noteq> Throws (OverCapacityError e))"
  using private_sendMessage_no_overcapacity [of l fo enc m t]
        send_no_overcapacity [of fo enc m p l]
        send_rejects_no_overcapacity [of fo enc m p l]
        dispatch_no_overcapacity [of fo enc err l]
  by (auto simp: canSend_def)

theorem overcapacity_unreachable_after_canSend_witness:
  "canSend test_link \<and> enableSessionFlowControl test_link \<and>
   fst (private_sendMessage 29 id ''abc'' ''1'' test_link) = Returns 1 \<and>
   (\<forall>e. fst (private_sendMessage 29 id ''abc'' ''1'' test_link) \<noteq> Throws (OverCapacityError e)) \<and>
   (\<forall>e. fst (send 29 id ''abc'' 7 test_link) \<noteq> Throws (OverCapacityError e))"
  using overcapacity_unreachable_after_canSend [of test_link 29 id "''abc''" "''1''" 7 None]
  by (simp add: test_link_def canSend_def private_sendMessage_def)

subsection \<open>Dispositions\<close>

lemma dispositionLoop_eq:
  "dispositionLoop err st lst i l =
     l\<lparr> promiseLog := promiseLog l @ concat (map (resolversFired err st (unsettledSends l)) [i..lst]),
         unsettledSends := (\<lambda>k. if i \<le> k \<and> k \<le> lst then None else unsettledSends l k) \<rparr>"
proof (induction err st lst i l rule: dispositionLoop.induct)
  case (1 err st lst i l)
  show ?case
  proof (cases "i \<le> lst")
    case False
    then have "(\<lambda>k. if i \<le> k \<and> k \<le> lst then None else unsettledSends l k) = unsettledSends l"
      by (auto simp: fun_eq_iff)
    with False show ?thesis by (simp add: dispositionLoop.simps [of err st lst i l])
  next
    case True
    have up: "[i..lst] = i # [i + 1..lst]" using True by (simp add: upto.simps)
    show ?thesis
    proof (cases "unsettledSends l i")
      case None
      have f: "(\<lambda>k. if i + 1 \<le> k \<and> k \<le> lst then None else unsettledSends l k) =
               (\<lambda>k. if i \<le> k \<and> k \<le> lst then None else unsettledSends l k)"
      proof (rule ext)
        fix k
        show "(if i + 1 \<le> k \<and> k \<le> lst then None else unsettledSends l k) =
              (if i \<le> k \<and> k \<le> lst then None else unsettledSends l k)"
        proof (cases "k = i")
          case True
          with None show ?thesis by simp
        next
          case False
          then show ?thesis by auto
        qed
      qed
      show ?thesis
        using 1(1) [OF True None] None True
        by (simp add: dispositionLoop.simps [of err st lst i l] up resolversFired_def f)
    next
      case (Some p)
      let ?l' = "l\<lparr> promiseLog := promiseLog l @ [(p, deferredSender err st)],
                     unsettledSends := (unsettledSends l)(i := None) \<rparr>"
      have A: "concat (map (resolversFired err st (unsettledSends ?l')) [i + 1..lst]) =
               concat (map (resolversFired err st (unsettledSends l)) [i + 1..lst])"
        by (rule arg_cong [where f = concat], rule map_cong) (auto simp: resolversFired_def)
      have B: "(\<lambda>k. if i + 1 \<le> k \<and> k \<le> lst then None else unsettledSends ?l' k) =
               (\<lambda>k. if i \<le> k \<and> k \<le> lst then None else unsettledSends l k)"
        using True by (auto simp: fun_eq_iff)
      have step: "dispositionLoop err st lst i l = dispositionLoop err st lst (i + 1) ?l'"
        using True Some by (simp add: dispositionLoop.simps [of err st lst i l])
      have C: "concat (map (resolversFired err st (unsettledSends l)) [i..lst]) =
               (p, deferredSender err st) #
               concat (map (resolversFired err st (unsettledSends l)) [i + 1..lst])"
        using Some by (simp add: up resolversFired_def)
      show ?thesis
        unfolding step 1(2) [OF True Some] A B C by simp
    qed
  qed
qed

lemma dispositionReceived_single:
  assumes "d_last details = Absent \<or> d_last details = Null \<or> d_last details = Val 0"
  shows "private_dispositionReceived details l =
     (if d_settled details then
        l\<lparr> promiseLog := promiseLog l @
              resolversFired (carriedError (d_state details)) (d_state details)
                (unsettledSends l) (d_first details),
            unsettledSends := (unsettledSends l)(d_first details := None) \<rparr>
      else l)"
proof -
  have lf: "last_or_first details = d_first details"
    using assms by (auto simp: last_or_first_def)
  have up: "[d_first details..d_first details] = [d_first details]" by (simp add: upto.simps)
  have f: "(\<lambda>k. if d_first details \<le> k \<and> k \<le> d_first details then None else unsettledSends l k) =
           (unsettledSends l)(d_first details := None)"
    by (auto simp: fun_eq_iff)
  show ?thesis
    by (simp add: private_dispositionReceived_def Let_def lf dispositionLoop_eq up f)
qed

lemma DispositionFrame_last_default:
  "o_role options = Some r \<Longrightarrow> o_first options = Some f \<Longrightarrow> o_last options = None \<Longrightarrow>
   \<exists>fr. DispositionFrame options = Inr fr \<and> df_first fr = f \<and> df_last fr = 0"
  by (simp add: DispositionFrame_def)

text \<open>
  C10: a disposition whose \<open>last\<close> is absent, \<open>null\<close> or 0 is processed with the range
  \<open>[first, first]\<close>: if it is settled, exactly the resolver stored under \<open>first\<close> (if any)
  is called and removed, and nothing else changes. A \<open>DispositionFrame\<close> built from
  options without \<open>last\<close> has \<open>last = 0\<close>, whatever \<open>first\<close> is.
\<close>

theorem disposition_without_last_covers_first:
  "(d_last details = Absent \<or> d_last details = Null \<or> d_last details = Val 0 \<longrightarrow>
      last_or_first details = d_first details \<and>
      private_dispositionReceived details l =
        (if d_settled details then
           l\<lparr> promiseLog := promiseLog l @
                 resolversFired (carriedError (d_state details)) (d_state details)
                   (unsettledSends l) (d_first details),
               unsettledSends := (unsettledSends l)(d_first details := None) \<rparr>
         else l)) \<and>
   (o_role options = Some r \<and> o_first options = Some f \<and> o_last options = None \<longrightarrow>
      (\<exists>fr. DispositionFrame options = Inr fr \<and> df_first fr = f \<and> df_last fr = 0))"
  using dispositionReceived_single [of details l] DispositionFrame_last_default [of options r f]
  by (auto simp: last_or_first_def)

theorem disposition_without_last_covers_first_witness:
  "d_last \<lparr> d_first = 3, d_last = Val 0, d_settled = True, d_state = Some Accepted \<rparr> = Val 0 \<and>
   promiseLog (private_dispositionReceived
       \<lparr> d_first = 3, d_last = Val 0, d_settled = True, d_state = Some Accepted \<rparr>
       (test_link\<lparr> unsettledSends := [2 \<mapsto> 20, 3 \<mapsto> 30, 4 \<mapsto> 40] \<rparr>)) =
     [(30, Resolved (Some Accepted))] \<and>
   unsettledSends (private_dispositionReceived
       \<lparr> d_first = 3, d_last = Val 0, d_settled = True, d_state = Some Accepted \<rparr>
       (test_link\<lparr> unsettledSends := [2 \<mapsto> 20, 3 \<mapsto> 30, 4 \<mapsto> 40] \<rparr>)) =
     [2 \<mapsto> 20, 4 \<mapsto> 40] \<and>
   (\<exists>fr. DispositionFrame \<lparr> o_role = Some True, o_first = Some 3, o_last = None,
        o_settled = Some True, o_state = Some Accepted, o_batchable = None \<rparr> = Inr fr \<and>
      df_first fr = 3 \<and> df_last fr = 0)"
  using disposition_without_last_covers_first
    [of "\<lparr> d_first = 3, d_last = Val 0, d_settled = True, d_state = Some Accepted \<rparr>"
        "test_link\<lparr> unsettledSends := [2 \<mapsto> 20, 3 \<mapsto> 30, 4 \<mapsto> 40] \<rparr>"
        "\<lparr> o_role = Some True, o_first = Some 3, o_last = None,
           o_settled = Some True, o_state = Some Accepted, o_batchable = None \<rparr>" True 3]
  by (auto simp: test_link_def resolversFired_def carriedError_def deferredSender_def fun_eq_iff)

subsection \<open>Splitting a message into transfer frames\<close>

lemma slice_chunk:
  assumes "0 < k" "0 \<le> s"
  shows "slice b s (s + k) = take (nat k) (drop (nat s) b)"
proof (cases "s \<le> int (length b)")
  case True
  show ?thesis
  proof (cases "s + k \<le> int (length b)")
    case True
    have "nat (s + k) - nat s = nat k" using assms by linarith
    with True assms \<open>s \<le> int (length b)\<close> show ?thesis
      by (simp add: slice_def clampIndex_def Let_def min_def)
  next
    case False
    then have "length b - nat s \<le> nat k" using assms by linarith
    with False assms True show ?thesis
      by (simp add: slice_def clampIndex_def Let_def min_def)
  qed
next
  case False
  with assms show ?thesis
    by (simp add: slice_def clampIndex_def Let_def min_def)
qed

lemma sendLoop_eq:
  "sendLoop topts buf ideal n i idx sent =
     sent @ map (\<lambda>j. TransferFrame (topts\<lparr> to_more := Some (j \<noteq> n - 1),
                   to_message := slice buf (idx + (j - i) * ideal) (idx + (j - i) * ideal + ideal) \<rparr>))
              [i..n - 1]"
proof (induction topts buf ideal n i idx sent rule: sendLoop.induct)
  case (1 topts buf ideal n i idx sent)
  show ?case
  proof (cases "i < n")
    case False
    then show ?thesis by (simp add: sendLoop.simps [of topts buf ideal n i idx sent])
  next
    case True
    have up: "[i..n - 1] = i # [i + 1..n - 1]" using True by (simp add: upto.simps)
    have e: "\<And>x. idx + ideal + (x - (i + 1)) * ideal = idx + (x - i) * ideal"
      by (simp add: algebra_simps)
    have step: "sendLoop topts buf ideal n i idx sent =
        sendLoop topts buf ideal n (i + 1) (idx + ideal)
          (sent @ [TransferFrame (topts\<lparr> to_more := Some (i \<noteq> n - 1),
              to_message := slice buf idx (idx + ideal) \<rparr>)])"
      using True by (simp add: sendLoop.simps [of topts buf ideal n i idx sent])
    show ?thesis
      unfolding step 1 [OF True] e up by simp
  qed
qed

lemma concat_chunks:
  "concat (map (\<lambda>j. take k (drop (j * k) xs)) [0..<n]) = take (n * k) xs"
proof (induction n)
  case 0
  show ?case by simp
next
  case (Suc n)
  have "take (n * k) xs @ take k (drop (n * k) xs) = take (n * k + k) xs"
    by (simp add: take_add)
  with Suc show ?case by (simp add: add.commute)
qed

lemma upto_as_upt: "0 \<le> n \<Longrightarrow> [0..n - 1] = map int [0..<nat n]"
proof (induction "nat n" arbitrary: n)
  case 0
  then show ?case by (simp add: upto.simps)
next
  case (Suc m)
  then have n: "nat n = Suc m" "0 < n" by auto
  then have m: "m = nat (n - 1)" by simp
  have "[0..n - 1] = [0..n - 1 - 1] @ [n - 1]"
    using n by (simp add: upto_rec2)
  also have "[0..n - 1 - 1] = map int [0..<nat (n - 1)]"
    using Suc(1) [OF m] n by simp
  finally show ?case using n m by simp
qed

lemma sendLoop_fragments:
  assumes "0 < ideal" "0 \<le> n"
  shows "sendLoop topts buf ideal n 0 0 sent = sent @ fragments topts buf (nat ideal) (nat n)"
proof -
  have "map (\<lambda>j. TransferFrame (topts\<lparr> to_more := Some (j \<noteq> n - 1),
                   to_message := slice buf (0 + (j - 0) * ideal) (0 + (j - 0) * ideal + ideal) \<rparr>))
              (map int [0..<nat n]) = fragments topts buf (nat ideal) (nat n)"
    unfolding fragments_def map_map
  proof (rule map_cong [OF refl])
    fix j assume "j \<in> set [0..<nat n]"
    then have j: "j < nat n" by simp
    have a: "(int j \<noteq> n - 1) = (Suc j \<noteq> nat n)" using j assms by auto
    have b: "slice buf (int j * ideal) (int j * ideal + ideal) =
             take (nat ideal) (drop (j * nat ideal) buf)"
      using slice_chunk [of ideal "int j * ideal" buf] assms
      by (simp add: nat_mult_distrib)
    show "((\<lambda>j. TransferFrame (topts\<lparr> to_more := Some (j \<noteq> n - 1),
                   to_message := slice buf (0 + (j - 0) * ideal) (0 + (j - 0) * ideal + ideal) \<rparr>)) \<circ> int) j =
          TransferFrame (topts\<lparr> to_more := Some (Suc j \<noteq> nat n),
            to_message := take (nat ideal) (drop (j * nat ideal) buf) \<rparr>)"
      by (simp add: a b)
  qed
  then show ?thesis
    by (simp only: sendLoop_eq upto_as_upt [OF assms(2)])
qed

lemma ceil_div_pos:
  assumes "0 < ideal" "0 \<le> len"
  shows "0 \<le> - ((- len) div ideal)" and "len \<le> (- ((- len) div ideal)) * ideal"
    and "- ((- len) div ideal) = \<lceil>real_of_int len / real_of_int ideal\<rceil>"
proof -
  have "(- len) div ideal \<le> 0"
    using assms by (metis neg_le_0_iff_le div_nonpos_pos_le0)
  then show "0 \<le> - ((- len) div ideal)" by simp
  have "(- len) div ideal * ideal + (- len) mod ideal = - len" by simp
  moreover have "0 \<le> (- len) mod ideal" using assms by simp
  ultimately have "(- len) div ideal * ideal \<le> - len" by linarith
  then show "len \<le> (- ((- len) div ideal)) * ideal" by simp
  show "- ((- len) div ideal) = \<lceil>real_of_int len / real_of_int ideal\<rceil>"
    by (simp add: ceiling_divide_eq_div)
qed

lemma length_fragments [simp]: "length (fragments topts buf k n) = n"
  by (simp add: fragments_def)

lemma fragments_nth:
  "j < n \<Longrightarrow> fragments topts buf k n ! j =
     TransferFrame (topts\<lparr> to_more := Some (Suc j \<noteq> n), to_message := take k (drop (j * k) buf) \<rparr>)"
  by (simp add: fragments_def)

lemma fragments_payload:
  "length buf \<le> n * k \<Longrightarrow> concat (map tf_message (fragments topts buf k n)) = buf"
  using concat_chunks [of k buf n]
  by (simp add: fragments_def TransferFrame_def comp_def)

lemma private_sendMessage_sends:
  fixes fo :: int and enc :: "'m \<Rightarrow> buffer" and msg :: 'm and tag :: buffer
    and l :: "'m sender_link"
  assumes conn: "hasConnection l"
    and credit: "0 < linkCredit l"
    and window: "enableSessionFlowControl l \<longrightarrow> 1 \<le> remoteIncomingWindow (sessionParams l)"
    and room: "fo + int (length tag) < connMaxFrameSize l"
  defines "ideal \<equiv> connMaxFrameSize l - (fo + int (length tag))"
  defines "len \<equiv> int (length (enc msg))"
  defines "topts \<equiv> \<lparr> to_channel = sessionChannel l, to_handle = linkHandle l,
                      to_deliveryId = nextOutgoingId (sessionParams l),
                      to_settled = (senderSettleMode (sessionParams l) = settled),
                      to_deliveryTag = tag, to_more = None, to_message = [] \<rparr>"
  shows "fst (private_sendMessage fo enc msg tag l) = Returns (nextOutgoingId (sessionParams l))"
    and "sentFrames (snd (private_sendMessage fo enc msg tag l)) =
           sentFrames l @
           (if ideal \<le> len
            then fragments topts (enc msg) (nat ideal) (nat (- ((- len) div ideal)))
            else [TransferFrame (topts\<lparr> to_message := enc msg \<rparr>)])"
proof -
  have ideal: "0 < ideal" using room by (simp add: ideal_def)
  have len: "0 \<le> len" by (simp add: len_def)
  have n: "0 \<le> - ((- len) div ideal)" using ceil_div_pos(1) [OF ideal len] .
  have cmp: "(connMaxFrameSize l \<le> len + (fo + int (length tag))) = (ideal \<le> len)"
    by (auto simp: ideal_def)
  have nw: "\<not> (remoteIncomingWindow (sessionParams l) - 1 < 0 \<and> enableSessionFlowControl l)"
    using window by auto
  have nc: "\<not> linkCredit l \<le> 0" using credit by simp
  have sm: "\<And>sp. senderSettleMode
      (if remoteIncomingWindow sp - 1 < 0
       then sp\<lparr> nextOutgoingId := nextOutgoingId sp + 1,
                remoteIncomingWindow := remoteIncomingWindow sp - 1,
                outgoingWindow := outgoingWindow sp - 1 \<rparr>\<lparr> remoteIncomingWindow := 0, outgoingWindow := 0 \<rparr>
       else sp\<lparr> nextOutgoingId := nextOutgoingId sp + 1,
                remoteIncomingWindow := remoteIncomingWindow sp - 1,
                outgoingWindow := outgoingWindow sp - 1 \<rparr>) = senderSettleMode sp"
    by simp
  show "fst (private_sendMessage fo enc msg tag l) = Returns (nextOutgoingId (sessionParams l))"
    using ideal nw nc conn
    by (simp add: private_sendMessage_def Let_def Math_ceil_div_def ideal_def)
  show "sentFrames (snd (private_sendMessage fo enc msg tag l)) =
           sentFrames l @
           (if ideal \<le> len
            then fragments topts (enc msg) (nat ideal) (nat (- ((- len) div ideal)))
            else [TransferFrame (topts\<lparr> to_message := enc msg \<rparr>)])"
  proof (cases "ideal \<le> len")
    case True
    then have c: "connMaxFrameSize l \<le> int (length (enc msg)) + (fo + int (length tag))"
      using cmp by (simp add: len_def)
    have i0: "connMaxFrameSize l - (fo + int (length tag)) \<noteq> 0" using ideal by (simp add: ideal_def)
    show ?thesis
      using True nw nc conn c i0
        sendLoop_fragments [OF ideal n, of topts "enc msg" "sentFrames l"]
      by (simp add: private_sendMessage_def Let_def Math_ceil_div_def topts_def
            flip: ideal_def len_def)
  next
    case False
    then have c: "\<not> connMaxFrameSize l \<le> int (length (enc msg)) + (fo + int (length tag))"
      using cmp by (simp add: len_def)
    show ?thesis
      using False nw nc conn c
      by (simp add: private_sendMessage_def Let_def topts_def)
  qed
qed

lemma TransferFrame_fields [simp]:
  "tf_channel (TransferFrame o') = to_channel o'"
  "tf_handle (TransferFrame o') = to_handle o'"
  "tf_deliveryId (TransferFrame o') = to_deliveryId o'"
  "tf_deliveryTag (TransferFrame o') = to_deliveryTag o'"
  "tf_message (TransferFrame o') = to_message o'"
  "tf_more (TransferFrame o') = (case to_more o' of None \<Rightarrow> False | Some b \<Rightarrow> b)"
  by (simp_all add: TransferFrame_def)

text \<open>
  C2: on a link that may send (connection, credit, and window under session flow control)
  and whose frame size leaves room for a payload (\<open>FRAME_OVERHEAD + len(deliveryTag) <
  maxFrameSize\<close>), \<open>_sendMessage\<close> returns the delivery id and appends frames such that:
  if the encoded length plus overhead plus tag length exceeds \<open>maxFrameSize\<close> there are
  \<open>\<lceil>length / idealMessageSize\<rceil>\<close> of them (at least two), otherwise exactly one; all
  carry the same delivery id, delivery tag, handle and channel; all but the last have
  \<open>more = true\<close>, the last has \<open>more = false\<close>; the payloads concatenate to the encoded
  message.
\<close>

theorem multi_frame_send:
  fixes fo :: int and enc :: "'m \<Rightarrow> buffer" and msg :: 'm and tag :: buffer
    and l :: "'m sender_link"
  assumes conn: "hasConnection l"
    and credit: "0 < linkCredit l"
    and window: "enableSessionFlowControl l \<longrightarrow> 1 \<le> remoteIncomingWindow (sessionParams l)"
    and room: "fo + int (length tag) < connMaxFrameSize l"
  shows "\<exists>frames.
     fst (private_sendMessage fo enc msg tag l) = Returns (nextOutgoingId (sessionParams l)) \<and>
     sentFrames (snd (private_sendMessage fo enc msg tag l)) = sentFrames l @ frames \<and>
     int (length frames) =
       (if connMaxFrameSize l < int (length (enc msg)) + fo + int (length tag)
        then \<lceil>real (length (enc msg)) / real_of_int (connMaxFrameSize l - fo - int (length tag))\<rceil>
        else 1) \<and>
     (connMaxFrameSize l < int (length (enc msg)) + fo + int (length tag) \<longrightarrow> 2 \<le> length frames) \<and>
     (\<forall>f \<in> set frames.
        tf_deliveryId f = nextOutgoingId (sessionParams l) \<and> tf_deliveryTag f = tag \<and>
        tf_handle f = linkHandle l \<and> tf_channel f = sessionChannel l) \<and>
     (\<forall>i < length frames. tf_more (frames ! i) = (Suc i \<noteq> length frames)) \<and>
     concat (map tf_message frames) = enc msg"
proof -
  define ideal where "ideal = connMaxFrameSize l - (fo + int (length tag))"
  define len where "len = int (length (enc msg))"
  define topts where "topts = \<lparr> to_channel = sessionChannel l, to_handle = linkHandle l,
                      to_deliveryId = nextOutgoingId (sessionParams l),
                      to_settled = (senderSettleMode (sessionParams l) = settled),
                      to_deliveryTag = tag, to_more = None, to_message = [] \<rparr>"
  define n where "n = - ((- len) div ideal)"
  have ideal: "0 < ideal" using room by (simp add: ideal_def)
  have len: "0 \<le> len" by (simp add: len_def)
  note cd = ceil_div_pos [OF ideal len, folded n_def]
  have ret: "fst (private_sendMessage fo enc msg tag l) = Returns (nextOutgoingId (sessionParams l))"
    by (rule private_sendMessage_sends(1) [OF conn credit window room])
  have fr: "sentFrames (snd (private_sendMessage fo enc msg tag l)) =
           sentFrames l @
           (if ideal \<le> len then fragments topts (enc msg) (nat ideal) (nat n)
            else [TransferFrame (topts\<lparr> to_message := enc msg \<rparr>)])"
    using private_sendMessage_sends(2) [OF conn credit window room, of enc msg]
    by (simp add: ideal_def len_def topts_def n_def)
  have exceeds: "(connMaxFrameSize l < int (length (enc msg)) + fo + int (length tag)) = (ideal < len)"
    by (auto simp: ideal_def len_def)
  have ceil: "\<lceil>real (length (enc msg)) / real_of_int (connMaxFrameSize l - fo - int (length tag))\<rceil> = n"
    using cd(3) by (simp add: len_def ideal_def algebra_simps)
  show ?thesis
  proof (cases "ideal \<le> len")
    case False
    let ?frames = "[TransferFrame (topts\<lparr> to_message := enc msg \<rparr>)]"
    have "\<not> ideal < len" using False by simp
    with ret fr False exceeds show ?thesis
      by (intro exI [of _ ?frames]) (simp add: topts_def)
  next
    case True
    let ?frames = "fragments topts (enc msg) (nat ideal) (nat n)"
    have n1: "1 \<le> n"
    proof (rule ccontr)
      assume "\<not> 1 \<le> n"
      then have "n \<le> 0" by simp
      then have "n * ideal \<le> 0" using ideal by (simp add: mult_le_0_iff)
      with cd(2) True ideal show False by simp
    qed
    have n2: "ideal < len \<Longrightarrow> 2 \<le> n"
    proof (rule ccontr)
      assume a: "ideal < len" "\<not> 2 \<le> n"
      with n1 have "n = 1" by simp
      with cd(2) a show False by simp
    qed
    have neq: "\<not> ideal < len \<Longrightarrow> n = 1"
    proof -
      assume "\<not> ideal < len"
      with True have "len = ideal" by simp
      then have "n = \<lceil>real_of_int ideal / real_of_int ideal\<rceil>" using cd(3) by simp
      then show "n = 1" using ideal by simp
    qed
    have cover: "length (enc msg) \<le> nat n * nat ideal"
    proof -
      have "int (length (enc msg)) \<le> n * ideal" using cd(2) by (simp add: len_def)
      then have "nat (int (length (enc msg))) \<le> nat (n * ideal)" by (rule nat_mono)
      then show ?thesis using n1 ideal by (simp add: nat_mult_distrib)
    qed
    have a: "sentFrames (snd (private_sendMessage fo enc msg tag l)) = sentFrames l @ ?frames"
      using fr True by simp
    have b: "int (length ?frames) =
       (if connMaxFrameSize l < int (length (enc msg)) + fo + int (length tag)
        then \<lceil>real (length (enc msg)) / real_of_int (connMaxFrameSize l - fo - int (length tag))\<rceil>
        else 1)"
      unfolding exceeds ceil using n1 neq by simp
    have c: "connMaxFrameSize l < int (length (enc msg)) + fo + int (length tag) \<longrightarrow> 2 \<le> length ?frames"
      using n2 by (auto simp: exceeds)
    have d: "\<forall>f \<in> set ?frames.
        tf_deliveryId f = nextOutgoingId (sessionParams l) \<and> tf_deliveryTag f = tag \<and>
        tf_handle f = linkHandle l \<and> tf_channel f = sessionChannel l"
      by (auto simp: fragments_def topts_def)
    have e: "\<forall>i < length ?frames. tf_more (?frames ! i) = (Suc i \<noteq> length ?frames)"
      by (simp add: fragments_nth)
    have f: "concat (map tf_message ?frames) = enc msg"
      by (rule fragments_payload [OF cover])
    from ret a b c d e f show ?thesis by blast
  qed
qed

theorem multi_frame_send_witness:
  "hasConnection test_link \<and> 0 < linkCredit test_link \<and>
   1 \<le> remoteIncomingWindow (sessionParams test_link) \<and>
   29 + int (length ''1'') < connMaxFrameSize test_link \<and>
   (\<exists>frames.
      sentFrames (snd (private_sendMessage 29 id (replicate 2055 (CHR ''0'')) ''1'' test_link)) =
        frames \<and>
      length frames = 5 \<and>
      (\<forall>f \<in> set frames. tf_deliveryId f = 1 \<and> tf_deliveryTag f = ''1'' \<and> tf_handle f = 0 \<and>
         tf_channel f = 1) \<and>
      (\<forall>i < length frames. tf_more (frames ! i) = (Suc i \<noteq> length frames)) \<and>
      concat (map tf_message frames) = replicate 2055 (CHR ''0''))"
  using multi_frame_send [of test_link 29 "''1''" id "replicate 2055 (CHR ''0'')"]
  by (simp add: test_link_def)

subsection \<open>Credit and session window never negative\<close>

text \<open>
  C1, as stated, fails. With session flow control disabled and a remote incoming window of
  0, \<open>_sendMessage\<close> emits the transfer all the same (and then clamps the window to 0).
  With session flow control enabled and a window of 0, a direct call throws after the
  decrement and leaves the window at -1.
\<close>

theorem window_counterexample:
  "sentFrames (snd (private_sendMessage 29 id ''abc'' ''1''
       (test_link\<lparr> enableSessionFlowControl := False,
                   sessionParams := (sessionParams test_link)\<lparr> remoteIncomingWindow := 0 \<rparr> \<rparr>))) =
     [\<lparr> tf_channel = 1, tf_handle = 0, tf_deliveryId = 1, tf_settled = False,
        tf_deliveryTag = ''1'', tf_more = False, tf_message = ''abc'' \<rparr>] \<and>
   fst (private_sendMessage 29 id ''abc'' ''1''
       (test_link\<lparr> sessionParams := (sessionParams test_link)\<lparr> remoteIncomingWindow := 0 \<rparr> \<rparr>)) =
     Throws (OverCapacityError ''Cannot send message - over Session window capacity (-1 window)'') \<and>
   remoteIncomingWindow (sessionParams (snd (private_sendMessage 29 id ''abc'' ''1''
       (test_link\<lparr> sessionParams := (sessionParams test_link)\<lparr> remoteIncomingWindow := 0 \<rparr> \<rparr>)))) = - 1"
  by (simp add: private_sendMessage_def test_link_def TransferFrame_def toString_def digit_def)

lemma private_sendMessage_returns_nonneg:
  "fst (private_sendMessage fo enc m t l) = Returns v \<Longrightarrow>
   0 \<le> linkCredit (snd (private_sendMessage fo enc m t l)) \<and>
   0 \<le> remoteIncomingWindow (sessionParams (snd (private_sendMessage fo enc m t l)))"
  by (auto simp: private_sendMessage_def Let_def split: if_splits js_count.splits)

lemma private_sendMessage_no_credit:
  "linkCredit l \<le> 0 \<Longrightarrow>
   private_sendMessage fo enc m t l = (Throws (OverCapacityError ''Cannot send if no link credit.''), l)"
  by (simp add: private_sendMessage_def)

lemma private_sendMessage_strict_frames:
  "enableSessionFlowControl l \<Longrightarrow> sentFrames (snd (private_sendMessage fo enc m t l)) \<noteq> sentFrames l \<Longrightarrow>
   1 \<le> remoteIncomingWindow (sessionParams l) \<and>
   remoteIncomingWindow (sessionParams (snd (private_sendMessage fo enc m t l))) =
     remoteIncomingWindow (sessionParams l) - 1"
  by (auto simp: private_sendMessage_def Let_def split: if_splits js_count.splits)

lemma private_sendMessage_relaxed_window:
  "\<not> enableSessionFlowControl l \<Longrightarrow> 0 < linkCredit l \<Longrightarrow>
   remoteIncomingWindow (sessionParams (snd (private_sendMessage fo enc m t l))) =
     max 0 (remoteIncomingWindow (sessionParams l) - 1)"
  by (auto simp: private_sendMessage_def Let_def split: if_splits js_count.splits)

lemma private_sendMessage_emits:
  fixes fo :: int and enc :: "'m \<Rightarrow> buffer" and msg :: 'm and tag :: buffer
    and l :: "'m sender_link"
  assumes conn: "hasConnection l"
    and credit: "0 < linkCredit l"
    and window: "enableSessionFlowControl l \<longrightarrow> 1 \<le> remoteIncomingWindow (sessionParams l)"
    and room: "fo + int (length tag) < connMaxFrameSize l"
  shows "\<exists>frames. frames \<noteq> [] \<and>
     fst (private_sendMessage fo enc msg tag l) = Returns (nextOutgoingId (sessionParams l)) \<and>
     sentFrames (snd (private_sendMessage fo enc msg tag l)) = sentFrames l @ frames \<and>
     (\<forall>f \<in> set frames. tf_deliveryId f = nextOutgoingId (sessionParams l)) \<and>
     concat (map tf_message frames) = enc msg"
proof -
  define ideal where "ideal = connMaxFrameSize l - (fo + int (length tag))"
  define len where "len = int (length (enc msg))"
  define topts where "topts = \<lparr> to_channel = sessionChannel l, to_handle = linkHandle l,
                      to_deliveryId = nextOutgoingId (sessionParams l),
                      to_settled = (senderSettleMode (sessionParams l) = settled),
                      to_deliveryTag = tag, to_more = None, to_message = [] \<rparr>"
  define n where "n = - ((- len) div ideal)"
  have ideal: "0 < ideal" using room by (simp add: ideal_def)
  have len: "0 \<le> len" by (simp add: len_def)
  note cd = ceil_div_pos [OF ideal len, folded n_def]
  have ret: "fst (private_sendMessage fo enc msg tag l) = Returns (nextOutgoingId (sessionParams l))"
    by (rule private_sendMessage_sends(1) [OF conn credit window room])
  have fr: "sentFrames (snd (private_sendMessage fo enc msg tag l)) =
           sentFrames l @
           (if ideal \<le> len then fragments topts (enc msg) (nat ideal) (nat n)
            else [TransferFrame (topts\<lparr> to_message := enc msg \<rparr>)])"
    using private_sendMessage_sends(2) [OF conn credit window room, of enc msg]
    by (simp add: ideal_def len_def topts_def n_def)
  show ?thesis
  proof (cases "ideal \<le> len")
    case False
    let ?frames = "[TransferFrame (topts\<lparr> to_message := enc msg \<rparr>)]"
    from ret fr False show ?thesis
      by (intro exI [of _ ?frames]) (simp add: topts_def)
  next
    case True
    let ?frames = "fragments topts (enc msg) (nat ideal) (nat n)"
    have n1: "1 \<le> n"
    proof (rule ccontr)
      assume "\<not> 1 \<le> n"
      then have "n \<le> 0" by simp
      then have "n * ideal \<le> 0" using ideal by (simp add: mult_le_0_iff)
      with cd(2) True ideal show False by simp
    qed
    have cover: "length (enc msg) \<le> nat n * nat ideal"
    proof -
      have "int (length (enc msg)) \<le> n * ideal" using cd(2) by (simp add: len_def)
      then have "nat (int (length (enc msg))) \<le> nat (n * ideal)" by (rule nat_mono)
      then show ?thesis using n1 ideal by (simp add: nat_mult_distrib)
    qed
    have "length ?frames \<noteq> 0" using n1 by simp
    then have a: "?frames \<noteq> []" by (simp only: length_0_conv not_False_eq_True)
    have b: "sentFrames (snd (private_sendMessage fo enc msg tag l)) = sentFrames l @ ?frames"
      using fr True by simp
    have d: "\<forall>f \<in> set ?frames. tf_deliveryId f = nextOutgoingId (sessionParams l)"
      by (auto simp: fragments_def topts_def)
    have f: "concat (map tf_message ?frames) = enc msg"
      by (rule fragments_payload [OF cover])
    from a ret b d f show ?thesis by blast
  qed
qed

lemma countersNonNegative_updates [simp]:
  "countersNonNegative (l\<lparr> pendingSends := q \<rparr>) = countersNonNegative l"
  "countersNonNegative (l\<lparr> sessionDeliveryTag := t \<rparr>) = countersNonNegative l"
  "countersNonNegative (l\<lparr> promiseLog := g \<rparr>) = countersNonNegative l"
  "countersNonNegative (l\<lparr> unsettledSends := u \<rparr>) = countersNonNegative l"
  by (simp_all add: countersNonNegative_def)

lemma private_sendMessage_keeps_counters:
  "canSend l \<Longrightarrow> countersNonNegative (snd (private_sendMessage fo enc m t l))"
  by (auto simp: countersNonNegative_def canSend_def private_sendMessage_def Let_def
           split: if_splits js_count.splits)

lemma sendMessage_keeps_counters:
  assumes "countersNonNegative l" "canSend l"
  shows "countersNonNegative (snd (sendMessage fo enc ps err l))"
proof (cases err)
  case (Some e)
  with assms show ?thesis by (simp add: sendMessage_def)
next
  case None
  obtain r l' where r: "private_sendMessage fo enc (ps_message ps) (decimal (ps_deliveryTag ps)) l = (r, l')"
    by (cases "private_sendMessage fo enc (ps_message ps) (decimal (ps_deliveryTag ps)) l")
  then have "countersNonNegative l'"
    using private_sendMessage_keeps_counters [OF assms(2), of fo enc "ps_message ps" "decimal (ps_deliveryTag ps)"]
    by simp
  with None r show ?thesis
    by (cases r; cases "callback l'") (simp_all add: sendMessage_def)
qed

lemma send_keeps_counters:
  assumes "countersNonNegative l"
  shows "countersNonNegative (snd (send fo enc m p l))"
proof (cases "hasConnection l \<and> canSend l")
  case False
  with assms show ?thesis by (auto simp: send_def Let_def)
next
  case True
  let ?l1 = "l\<lparr> sessionDeliveryTag := sessionDeliveryTag l + 1 \<rparr>"
  let ?ps = "\<lparr> ps_message = m, ps_deliveryTag = sessionDeliveryTag l, ps_promise = p \<rparr>"
  obtain r l2 where r: "sendMessage fo enc ?ps None ?l1 = (r, l2)"
    by (cases "sendMessage fo enc ?ps None ?l1")
  have "countersNonNegative l2"
    using sendMessage_keeps_counters [of ?l1 fo enc ?ps None] assms True r by simp
  with True r show ?thesis by (cases r) (simp_all add: send_def Let_def)
qed

lemma dispatch_keeps_counters:
  "countersNonNegative l \<Longrightarrow> countersNonNegative (snd (private_dispatchPendingSends fo enc err l))"
proof (induction fo enc err l rule: private_dispatchPendingSends.induct)
  case (1 fo enc err l)
  show ?case
  proof (cases "pendingSends l")
    case Nil
    with 1(2) show ?thesis by (simp add: private_dispatchPendingSends.simps)
  next
    case (Cons ps rest)
    show ?thesis
    proof (cases "canSend l")
      case False
      with Cons 1(2) show ?thesis by (simp add: private_dispatchPendingSends.simps)
    next
      case True
      obtain r l' where r: "sendMessage fo enc ps err (l\<lparr> pendingSends := rest \<rparr>) = (r, l')"
        by (cases "sendMessage fo enc ps err (l\<lparr> pendingSends := rest \<rparr>)")
      have inv: "countersNonNegative l'"
        using sendMessage_keeps_counters [of "l\<lparr> pendingSends := rest \<rparr>" fo enc ps err] 1(2) True r
        by simp
      show ?thesis
      proof (cases r)
        case (Returns u)
        with 1(1) [OF Cons True _ _ inv] r Cons True show ?thesis
          by (simp add: private_dispatchPendingSends.simps [of fo enc err l])
      next
        case (Throws x)
        with inv r Cons True show ?thesis
          by (simp add: private_dispatchPendingSends.simps [of fo enc err l])
      next
        case Diverges
        with inv r Cons True show ?thesis
          by (simp add: private_dispatchPendingSends.simps [of fo enc err l])
      qed
    qed
  qed
qed

lemma flowReceived_keeps_counters:
  assumes "countersNonNegative l" "0 \<le> ff_linkCredit flowFrame"
  shows "countersNonNegative (snd (private_flowReceived fo enc flowFrame l))"
proof -
  have "countersNonNegative (l\<lparr> available := ff_available flowFrame,
            deliveryCount := ff_deliveryCount flowFrame,
            linkCredit := ff_linkCredit flowFrame,
            totalCredits := totalCredits l + ff_linkCredit flowFrame \<rparr>)"
    using assms by (simp add: countersNonNegative_def)
  with assms(1) show ?thesis
    by (simp add: private_flowReceived_def Let_def dispatch_keeps_counters)
qed

text \<open>
  C1 (amended): whenever \<open>_sendMessage\<close> returns, \<open>linkCredit\<close> and \<open>remoteIncomingWindow\<close>
  are non-negative afterwards. Under session flow control a transfer is emitted only if
  the window was at least 1, and the window then drops by one. Without session flow
  control the window becomes \<open>max 0 (window - 1)\<close> and the transfer is emitted whatever
  the window: on a link with credit and a connection whose frame size exceeds
  \<open>FRAME_OVERHEAD + len(deliveryTag)\<close>, if session flow control is disabled or the window
  is at least 1, \<open>_sendMessage\<close> returns the delivery id and appends at least one frame,
  the frames carrying that id and the whole encoded message. \<open>send\<close> and
  \<open>_dispatchPendingSends\<close> keep both counters non-negative. Nothing is said about the
  counters after the over-capacity throw of a direct call.
\<close>

theorem counters_nonnegative:
  "(\<forall>v. fst (private_sendMessage fo enc m t l) = Returns v \<longrightarrow>
      countersNonNegative (snd (private_sendMessage fo enc m t l))) \<and>
   (enableSessionFlowControl l \<and>
    sentFrames (snd (private_sendMessage fo enc m t l)) \<noteq> sentFrames l \<longrightarrow>
      1 \<le> remoteIncomingWindow (sessionParams l) \<and>
      remoteIncomingWindow (sessionParams (snd (private_sendMessage fo enc m t l))) =
        remoteIncomingWindow (sessionParams l) - 1) \<and>
   (\<not> enableSessionFlowControl l \<and> 0 < linkCredit l \<longrightarrow>
      remoteIncomingWindow (sessionParams (snd (private_sendMessage fo enc m t l))) =
        max 0 (remoteIncomingWindow (sessionParams l) - 1)) \<and>
   ((enableSessionFlowControl l \<longrightarrow> 1 \<le> remoteIncomingWindow (sessionParams l)) \<and>
    0 < linkCredit l \<and> hasConnection l \<and> fo + int (length t) < connMaxFrameSize l \<longrightarrow>
      (\<exists>frames. frames \<noteq> [] \<and>
         fst (private_sendMessage fo enc m t l) = Returns (nextOutgoingId (sessionParams l)) \<and>
         sentFrames (snd (private_sendMessage fo enc m t l)) = sentFrames l @ frames \<and>
         (\<forall>f \<in> set frames. tf_deliveryId f = nextOutgoingId (sessionParams l)) \<and>
         concat (map tf_message frames) = enc m)) \<and>
   (countersNonNegative l \<longrightarrow>
      countersNonNegative (snd (send fo enc m p l)) \<and>
      countersNonNegative (snd (private_dispatchPendingSends fo enc err l)))"
proof -
  have a: "\<forall>v. fst (private_sendMessage fo enc m t l) = Returns v \<longrightarrow>
      countersNonNegative (snd (private_sendMessage fo enc m t l))"
    using private_sendMessage_returns_nonneg [of fo enc m t l]
    by (simp add: countersNonNegative_def)
  have b: "enableSessionFlowControl l \<and>
    sentFrames (snd (private_sendMessage fo enc m t l)) \<noteq> sentFrames l \<longrightarrow>
      1 \<le> remoteIncomingWindow (sessionParams l) \<and>
      remoteIncomingWindow (sessionParams (snd (private_sendMessage fo enc m t l))) =
        remoteIncomingWindow (sessionParams l) - 1"
    using private_sendMessage_strict_frames [of l fo enc m t] by blast
  have c: "\<not> enableSessionFlowControl l \<and> 0 < linkCredit l \<longrightarrow>
      remoteIncomingWindow (sessionParams (snd (private_sendMessage fo enc m t l))) =
        max 0 (remoteIncomingWindow (sessionParams l) - 1)"
    using private_sendMessage_relaxed_window [of l fo enc m t] by blast
  have d: "(enableSessionFlowControl l \<longrightarrow> 1 \<le> remoteIncomingWindow (sessionParams l)) \<and>
    0 < linkCredit l \<and> hasConnection l \<and> fo + int (length t) < connMaxFrameSize l \<longrightarrow>
      (\<exists>frames. frames \<noteq> [] \<and>
         fst (private_sendMessage fo enc m t l) = Returns (nextOutgoingId (sessionParams l)) \<and>
         sentFrames (snd (private_sendMessage fo enc m t l)) = sentFrames l @ frames \<and>
         (\<forall>f \<in> set frames. tf_deliveryId f = nextOutgoingId (sessionParams l)) \<and>
         concat (map tf_message frames) = enc m)"
  proof
    assume h: "(enableSessionFlowControl l \<longrightarrow> 1 \<le> remoteIncomingWindow (sessionParams l)) \<and>
      0 < linkCredit l \<and> hasConnection l \<and> fo + int (length t) < connMaxFrameSize l"
    then have w: "enableSessionFlowControl l \<longrightarrow> 1 \<le> remoteIncomingWindow (sessionParams l)"
      by simp
    from h show "\<exists>frames. frames \<noteq> [] \<and>
         fst (private_sendMessage fo enc m t l) = Returns (nextOutgoingId (sessionParams l)) \<and>
         sentFrames (snd (private_sendMessage fo enc m t l)) = sentFrames l @ frames \<and>
         (\<forall>f \<in> set frames. tf_deliveryId f = nextOutgoingId (sessionParams l)) \<and>
         concat (map tf_message frames) = enc m"
      by (intro private_sendMessage_emits w) simp_all
  qed
  have e: "countersNonNegative l \<longrightarrow>
      countersNonNegative (snd (send fo enc m p l)) \<and>
      countersNonNegative (snd (private_dispatchPendingSends fo enc err l))"
    using send_keeps_counters [of l fo enc m p] dispatch_keeps_counters [of l fo enc err]
    by blast
  from a b c d e show ?thesis by (intro conjI)
qed

theorem counters_nonnegative_witness:
  "fst (private_sendMessage 29 id ''abc'' ''1'' test_link) = Returns 1 \<and>
   countersNonNegative (snd (private_sendMessage 29 id ''abc'' ''1'' test_link)) \<and>
   enableSessionFlowControl test_link \<and>
   sentFrames (snd (private_sendMessage 29 id ''abc'' ''1'' test_link)) \<noteq> sentFrames test_link \<and>
   remoteIncomingWindow (sessionParams (snd (private_sendMessage 29 id ''abc'' ''1'' test_link))) =
     2147483646 \<and>
   \<not> enableSessionFlowControl (test_link\<lparr> enableSessionFlowControl := False,
        sessionParams := (sessionParams test_link)\<lparr> remoteIncomingWindow := 0 \<rparr> \<rparr>) \<and>
   remoteIncomingWindow (sessionParams (snd (private_sendMessage 29 id ''abc'' ''1''
       (test_link\<lparr> enableSessionFlowControl := False,
                   sessionParams := (sessionParams test_link)\<lparr> remoteIncomingWindow := 0 \<rparr> \<rparr>)))) = 0 \<and>
   (\<exists>frames. frames \<noteq> [] \<and>
      sentFrames (snd (private_sendMessage 29 id ''abc'' ''1''
       (test_link\<lparr> enableSessionFlowControl := False,
                   sessionParams := (sessionParams test_link)\<lparr> remoteIncomingWindow := 0 \<rparr> \<rparr>))) =
        frames \<and>
      (\<forall>f \<in> set frames. tf_deliveryId f = 1) \<and>
      concat (map tf_message frames) = ''abc'') \<and>
   countersNonNegative test_link \<and>
   countersNonNegative (snd (send 29 id ''abc'' 7 test_link)) \<and>
   countersNonNegative (snd (private_dispatchPendingSends 29 id None
       (test_link\<lparr> pendingSends := [\<lparr> ps_message = ''abc'', ps_deliveryTag = 1, ps_promise = 7 \<rparr>] \<rparr>)))"
proof -
  let ?relaxed = "test_link\<lparr> enableSessionFlowControl := False,
        sessionParams := (sessionParams test_link)\<lparr> remoteIncomingWindow := 0 \<rparr> \<rparr>"
  let ?queued = "test_link\<lparr> pendingSends := [\<lparr> ps_message = ''abc'', ps_deliveryTag = 1, ps_promise = 7 \<rparr>] \<rparr>"
  have ret: "fst (private_sendMessage 29 id ''abc'' ''1'' test_link) = Returns 1"
    by (simp add: private_sendMessage_def test_link_def)
  have fr: "sentFrames (snd (private_sendMessage 29 id ''abc'' ''1'' test_link)) \<noteq> sentFrames test_link"
    by (simp add: private_sendMessage_def test_link_def)
  have inv: "countersNonNegative test_link" "countersNonNegative ?queued"
    by (simp_all add: countersNonNegative_def test_link_def)
  have en: "enableSessionFlowControl test_link" "\<not> enableSessionFlowControl ?relaxed"
    "0 < linkCredit ?relaxed" "remoteIncomingWindow (sessionParams test_link) = 2147483647"
    "remoteIncomingWindow (sessionParams ?relaxed) = 0"
    by (simp_all add: test_link_def)
  have em: "hasConnection ?relaxed" "29 + int (length ''1'') < connMaxFrameSize ?relaxed"
    "sentFrames ?relaxed = []" "nextOutgoingId (sessionParams ?relaxed) = 1"
    by (simp_all add: test_link_def)
  have id_abc: "id ''abc'' = ''abc''" by simp
  note T1 = counters_nonnegative [of 29 id "''abc''" "''1''" test_link 7 None]
  note T2 = counters_nonnegative [of 29 id "''abc''" "''1''" ?relaxed 7 None]
  note T3 = counters_nonnegative [of 29 id "''abc''" "''1''" ?queued 7 None]
  have w1: "countersNonNegative (snd (private_sendMessage 29 id ''abc'' ''1'' test_link))"
    using conjunct1 [OF T1] ret by blast
  have "remoteIncomingWindow (sessionParams (snd (private_sendMessage 29 id ''abc'' ''1'' test_link))) =
     remoteIncomingWindow (sessionParams test_link) - 1"
    using conjunct1 [OF conjunct2 [OF T1]] en(1) fr by blast
  then have w2: "remoteIncomingWindow (sessionParams (snd (private_sendMessage 29 id ''abc'' ''1'' test_link))) =
     2147483646"
    by (simp add: en(4))
  have "remoteIncomingWindow (sessionParams (snd (private_sendMessage 29 id ''abc'' ''1'' ?relaxed))) =
     max 0 (remoteIncomingWindow (sessionParams ?relaxed) - 1)"
    using conjunct1 [OF conjunct2 [OF conjunct2 [OF T2]]] en(2,3) by blast
  then have w3: "remoteIncomingWindow (sessionParams (snd (private_sendMessage 29 id ''abc'' ''1'' ?relaxed))) = 0"
    by (simp add: en(5))
  have "\<exists>frames. frames \<noteq> [] \<and>
         fst (private_sendMessage 29 id ''abc'' ''1'' ?relaxed) =
           Returns (nextOutgoingId (sessionParams ?relaxed)) \<and>
         sentFrames (snd (private_sendMessage 29 id ''abc'' ''1'' ?relaxed)) =
           sentFrames ?relaxed @ frames \<and>
         (\<forall>f \<in> set frames. tf_deliveryId f = nextOutgoingId (sessionParams ?relaxed)) \<and>
         concat (map tf_message frames) = id ''abc''"
    using conjunct1 [OF conjunct2 [OF conjunct2 [OF conjunct2 [OF T2]]]] en(2,3) em(1,2) by blast
  then have w4: "\<exists>frames. frames \<noteq> [] \<and>
      sentFrames (snd (private_sendMessage 29 id ''abc'' ''1'' ?relaxed)) = frames \<and>
      (\<forall>f \<in> set frames. tf_deliveryId f = 1) \<and>
      concat (map tf_message frames) = ''abc''"
    unfolding em(3,4) id_abc append_Nil by blast
  have w5: "countersNonNegative (snd (send 29 id ''abc'' 7 test_link))"
    using conjunct2 [OF conjunct2 [OF conjunct2 [OF conjunct2 [OF T1]]]] inv(1) by blast
  have w6: "countersNonNegative (snd (private_dispatchPendingSends 29 id None ?queued))"
    using conjunct2 [OF conjunct2 [OF conjunct2 [OF conjunct2 [OF T3]]]] inv(2) by blast
  from ret w1 en(1) fr w2 en(2) w3 w4 inv(1) w5 w6 show ?thesis by (intro conjI)
qed

subsection \<open>Settlement of \<open>OnSettle\<close> sends\<close>

lemma settlementsOf_append [simp]:
  "settlementsOf p (a @ b) = settlementsOf p a @ settlementsOf p b"
  by (simp add: settlementsOf_def)

lemma dispositionReceived_eq:
  "private_dispositionReceived d l =
     (if d_settled d then
        l\<lparr> promiseLog := promiseLog l @
              concat (map (resolversFired (carriedError (d_state d)) (d_state d) (unsettledSends l))
                        [d_first d..last_or_first d]),
            unsettledSends :=
              (\<lambda>k. if d_first d \<le> k \<and> k \<le> last_or_first d then None else unsettledSends l k) \<rparr>
      else l)"
  by (simp add: private_dispositionReceived_def Let_def dispositionLoop_eq)

lemma settlementsOf_fired_none:
  "\<forall>j \<in> set xs. us j \<noteq> Some p \<Longrightarrow>
   settlementsOf p (concat (map (resolversFired err st us) xs)) = []"
  by (induction xs) (auto simp: settlementsOf_def resolversFired_def split: option.splits)

lemma settlementsOf_fired_one:
  assumes "us k = Some p" "\<forall>j. us j = Some p \<longrightarrow> j = k" "distinct xs"
  shows "settlementsOf p (concat (map (resolversFired err st us) xs)) =
         (if k \<in> set xs then [deferredSender err st] else [])"
  using assms(3)
proof (induction xs)
  case Nil
  show ?case by (simp add: settlementsOf_def)
next
  case (Cons x xs)
  show ?case
  proof (cases "x = k")
    case True
    then have "\<forall>j \<in> set xs. us j \<noteq> Some p" using Cons(2) assms(2) by auto
    then have "settlementsOf p (concat (map (resolversFired err st us) xs)) = []"
      by (rule settlementsOf_fired_none)
    moreover have "settlementsOf p (resolversFired err st us x) = [deferredSender err st]"
      using True assms(1) by (simp add: settlementsOf_def resolversFired_def)
    ultimately show ?thesis using True by simp
  next
    case False
    then have "us x \<noteq> Some p" using assms(2) by auto
    then have "settlementsOf p (resolversFired err st us x) = []"
      by (auto simp: settlementsOf_def resolversFired_def split: option.splits)
    with False Cons show ?thesis by simp
  qed
qed

lemma dispositionReceived_settles:
  assumes "unsettledSends l k = Some p" "\<forall>j. unsettledSends l j = Some p \<longrightarrow> j = k"
  shows "settlementsOf p (promiseLog (private_dispositionReceived d l)) =
           settlementsOf p (promiseLog l) @
           (if covers d k then [deferredSender (carriedError (d_state d)) (d_state d)] else [])"
proof (cases "d_settled d")
  case False
  then show ?thesis by (simp add: dispositionReceived_eq covers_def)
next
  case True
  have "distinct [d_first d..last_or_first d]" by simp
  from settlementsOf_fired_one [OF assms this] True show ?thesis
    by (simp add: dispositionReceived_eq covers_def)
qed

lemma dispositionReceived_unsettled:
  "unsettledSends (private_dispositionReceived d l) j =
     (if covers d j then None else unsettledSends l j)"
  by (simp add: dispositionReceived_eq covers_def)

lemma dispositionReceived_gone:
  assumes "\<forall>j. unsettledSends l j \<noteq> Some p"
  shows "settlementsOf p (promiseLog (private_dispositionReceived d l)) = settlementsOf p (promiseLog l)"
proof (cases "d_settled d")
  case False
  then show ?thesis by (simp add: dispositionReceived_eq)
next
  case True
  have "\<forall>j \<in> set [d_first d..last_or_first d]. unsettledSends l j \<noteq> Some p" using assms by simp
  from settlementsOf_fired_none [OF this] True show ?thesis
    by (simp add: dispositionReceived_eq)
qed

lemma dispositions_gone:
  "\<forall>j. unsettledSends l j \<noteq> Some p \<Longrightarrow>
   settlementsOf p (promiseLog (fold private_dispositionReceived ds l)) = settlementsOf p (promiseLog l)"
proof (induction ds arbitrary: l)
  case Nil
  show ?case by simp
next
  case (Cons d ds)
  have "\<forall>j. unsettledSends (private_dispositionReceived d l) j \<noteq> Some p"
    using Cons(2) by (simp add: dispositionReceived_unsettled)
  from Cons(1) [OF this] dispositionReceived_gone [OF Cons(2)] show ?case by simp
qed

lemma dispositions_settle_once:
  assumes "unsettledSends l k = Some p" "\<forall>j. unsettledSends l j = Some p \<longrightarrow> j = k"
  shows "settlementsOf p (promiseLog (fold private_dispositionReceived ds l)) =
           settlementsOf p (promiseLog l) @
           (case find (\<lambda>d. covers d k) ds of
              None \<Rightarrow> []
            | Some d \<Rightarrow> [deferredSender (carriedError (d_state d)) (d_state d)])"
  using assms
proof (induction ds arbitrary: l)
  case Nil
  show ?case by simp
next
  case (Cons d ds)
  let ?l' = "private_dispositionReceived d l"
  show ?case
  proof (cases "covers d k")
    case True
    have "\<forall>j. unsettledSends ?l' j \<noteq> Some p"
    proof
      fix j show "unsettledSends ?l' j \<noteq> Some p"
        using Cons(3) True by (cases "j = k") (auto simp: dispositionReceived_unsettled)
    qed
    from dispositions_gone [OF this] dispositionReceived_settles [OF Cons(2,3)] True
    show ?thesis by simp
  next
    case False
    have a: "unsettledSends ?l' k = Some p"
      using False Cons(2) by (simp add: dispositionReceived_unsettled)
    have b: "\<forall>j. unsettledSends ?l' j = Some p \<longrightarrow> j = k"
      using Cons(3) by (auto simp: dispositionReceived_unsettled split: if_splits)
    from Cons(1) [OF a b] dispositionReceived_settles [OF Cons(2,3)] False
    show ?thesis by simp
  qed
qed

lemma deferredSender_cases:
  "deferredSender (carriedError st) st =
     (case st of Some (Rejected e) \<Rightarrow> Rejected_with (RemoteError e) | _ \<Rightarrow> Resolved st)"
  by (auto simp: deferredSender_def carriedError_def split: option.splits delivery_state.splits)

lemma private_sendMessage_keeps:
  "unsettledSends (snd (private_sendMessage fo enc m t l)) = unsettledSends l"
  "callback (snd (private_sendMessage fo enc m t l)) = callback l"
  by (simp_all add: private_sendMessage_def Let_def split: js_count.splits)

lemma sendMessage_registers_resolver:
  fixes fo :: int and enc :: "'m \<Rightarrow> buffer" and l :: "'m sender_link"
  assumes conn: "hasConnection l" and can: "canSend l"
    and room: "fo + int (length (decimal (ps_deliveryTag ps))) < connMaxFrameSize l"
    and cb: "callback l = OnSettle"
  shows "fst (sendMessage fo enc ps None l) = Returns ()"
    and "unsettledSends (snd (sendMessage fo enc ps None l)) =
           (unsettledSends l)(nextOutgoingId (sessionParams l) \<mapsto> ps_promise ps)"
    and "promiseLog (snd (sendMessage fo enc ps None l)) = promiseLog l"
proof -
  let ?t = "decimal (ps_deliveryTag ps)"
  obtain r l' where r: "private_sendMessage fo enc (ps_message ps) ?t l = (r, l')"
    by (cases "private_sendMessage fo enc (ps_message ps) ?t l")
  have c1: "0 < linkCredit l"
    "enableSessionFlowControl l \<longrightarrow> 1 \<le> remoteIncomingWindow (sessionParams l)"
    using can by (auto simp: canSend_def split: if_splits)
  have "r = Returns (nextOutgoingId (sessionParams l))"
    using private_sendMessage_sends(1) [OF conn c1 room, of enc "ps_message ps"] r by simp
  moreover have "unsettledSends l' = unsettledSends l" "callback l' = OnSettle"
    "promiseLog l' = promiseLog l"
    using private_sendMessage_keeps [of fo enc "ps_message ps" ?t l]
          private_sendMessage_promiseLog [of fo enc "ps_message ps" ?t l] r cb
    by simp_all
  ultimately show "fst (sendMessage fo enc ps None l) = Returns ()"
    and "unsettledSends (snd (sendMessage fo enc ps None l)) =
           (unsettledSends l)(nextOutgoingId (sessionParams l) \<mapsto> ps_promise ps)"
    and "promiseLog (snd (sendMessage fo enc ps None l)) = promiseLog l"
    using r by (simp_all add: sendMessage_def)
qed

lemma send_registers_resolver:
  fixes fo :: int and enc :: "'m \<Rightarrow> buffer" and msg :: 'm and l :: "'m sender_link"
  assumes conn: "hasConnection l" and can: "canSend l"
    and room: "fo + int (length (decimal (sessionDeliveryTag l))) < connMaxFrameSize l"
    and cb: "callback l = OnSettle"
  shows "fst (send fo enc msg p l) = Returns p"
    and "unsettledSends (snd (send fo enc msg p l)) =
           (unsettledSends l)(nextOutgoingId (sessionParams l) \<mapsto> p)"
    and "promiseLog (snd (send fo enc msg p l)) = promiseLog l"
proof -
  let ?l1 = "l\<lparr> sessionDeliveryTag := sessionDeliveryTag l + 1 \<rparr>"
  let ?ps = "\<lparr> ps_message = msg, ps_deliveryTag = sessionDeliveryTag l, ps_promise = p \<rparr>"
  obtain r l2 where r: "sendMessage fo enc ?ps None ?l1 = (r, l2)"
    by (cases "sendMessage fo enc ?ps None ?l1")
  have c1: "hasConnection ?l1" "canSend ?l1"
    "fo + int (length (decimal (ps_deliveryTag ?ps))) < connMaxFrameSize ?l1"
    "callback ?l1 = OnSettle"
    using conn can room cb by simp_all
  have "r = Returns ()" "unsettledSends l2 = (unsettledSends l)(nextOutgoingId (sessionParams l) \<mapsto> p)"
    "promiseLog l2 = promiseLog l"
    using sendMessage_registers_resolver [OF c1, of enc] r by simp_all
  then show "fst (send fo enc msg p l) = Returns p"
    and "unsettledSends (snd (send fo enc msg p l)) =
           (unsettledSends l)(nextOutgoingId (sessionParams l) \<mapsto> p)"
    and "promiseLog (snd (send fo enc msg p l)) = promiseLog l"
    using conn can r by (simp_all add: send_def Let_def)
qed

text \<open>
  C3, as stated, fails: a settled disposition with \<open>first = 3\<close> and \<open>last = 0\<close>, whose
  range \<open>[3, 0]\<close> is empty and so covers no delivery, fires the resolver of delivery 3.
\<close>

theorem settlement_counterexample:
  "\<not> (3 \<le> (3::int) \<and> (3::int) \<le> 0) \<and>
   promiseLog (private_dispositionReceived
       \<lparr> d_first = 3, d_last = Val 0, d_settled = True, d_state = Some Accepted \<rparr>
       (test_link\<lparr> unsettledSends := [3 \<mapsto> 9] \<rparr>)) =
     [(9, Resolved (Some Accepted))] \<and>
   unsettledSends (private_dispositionReceived
       \<lparr> d_first = 3, d_last = Val 0, d_settled = True, d_state = Some Accepted \<rparr>
       (test_link\<lparr> unsettledSends := [3 \<mapsto> 9] \<rparr>)) 3 = None"
  by (simp add: dispositionReceived_eq last_or_first_def upto.simps resolversFired_def
        carriedError_def deferredSender_def test_link_def)

text \<open>
  C3 (amended): under \<open>OnSettle\<close>, a \<open>send\<close> that is transmitted (at once, or later when
  its queued closure is called without error) stores the promise's resolver under the
  assigned delivery id and settles nothing yet. If delivery \<open>k\<close> holds
  the resolver of promise \<open>p\<close> (and only \<open>k\<close> does), then over any sequence of
  dispositions \<open>p\<close> is settled exactly once if some settled disposition covers \<open>k\<close> with the
  range \<open>[first, last || first]\<close>, by the first such disposition, and not at all otherwise:
  rejected with the carried error if the state is \<open>Rejected\<close>, resolved with the state in
  every other case. A disposition with \<open>settled = false\<close> changes nothing.
\<close>

theorem settlement_on_disposition:
  fixes fo :: int and enc :: "'m \<Rightarrow> buffer" and msg :: 'm and l :: "'m sender_link"
  shows
  "(hasConnection l \<and> canSend l \<and> callback l = OnSettle \<and>
    fo + int (length (decimal (sessionDeliveryTag l))) < connMaxFrameSize l \<longrightarrow>
      fst (send fo enc msg p l) = Returns p \<and>
      unsettledSends (snd (send fo enc msg p l)) =
        (unsettledSends l)(nextOutgoingId (sessionParams l) \<mapsto> p) \<and>
      promiseLog (snd (send fo enc msg p l)) = promiseLog l) \<and>
   (hasConnection l \<and> canSend l \<and> callback l = OnSettle \<and>
    fo + int (length (decimal (ps_deliveryTag ps))) < connMaxFrameSize l \<longrightarrow>
      fst (sendMessage fo enc ps None l) = Returns () \<and>
      unsettledSends (snd (sendMessage fo enc ps None l)) =
        (unsettledSends l)(nextOutgoingId (sessionParams l) \<mapsto> ps_promise ps) \<and>
      promiseLog (snd (sendMessage fo enc ps None l)) = promiseLog l) \<and>
   (unsettledSends l k = Some p \<and> (\<forall>j. unsettledSends l j = Some p \<longrightarrow> j = k) \<longrightarrow>
      settlementsOf p (promiseLog (fold private_dispositionReceived ds l)) =
        settlementsOf p (promiseLog l) @
        (case find (\<lambda>d. covers d k) ds of
           None \<Rightarrow> []
         | Some d \<Rightarrow>
             [case d_state d of
                Some (Rejected e) \<Rightarrow> Rejected_with (RemoteError e)
              | _ \<Rightarrow> Resolved (d_state d)])) \<and>
   (\<not> d_settled d \<longrightarrow> private_dispositionReceived d l = l)"
proof -
  have a2: "hasConnection l \<and> canSend l \<and> callback l = OnSettle \<and>
    fo + int (length (decimal (ps_deliveryTag ps))) < connMaxFrameSize l \<longrightarrow>
      fst (sendMessage fo enc ps None l) = Returns () \<and>
      unsettledSends (snd (sendMessage fo enc ps None l)) =
        (unsettledSends l)(nextOutgoingId (sessionParams l) \<mapsto> ps_promise ps) \<and>
      promiseLog (snd (sendMessage fo enc ps None l)) = promiseLog l"
    using sendMessage_registers_resolver [where l = l and fo = fo and ps = ps and enc = enc]
    by blast
  have a: "hasConnection l \<and> canSend l \<and> callback l = OnSettle \<and>
    fo + int (length (decimal (sessionDeliveryTag l))) < connMaxFrameSize l \<longrightarrow>
      fst (send fo enc msg p l) = Returns p \<and>
      unsettledSends (snd (send fo enc msg p l)) =
        (unsettledSends l)(nextOutgoingId (sessionParams l) \<mapsto> p) \<and>
      promiseLog (snd (send fo enc msg p l)) = promiseLog l"
    using send_registers_resolver [where l = l and fo = fo and p = p and enc = enc and msg = msg]
    by blast
  have b: "unsettledSends l k = Some p \<and> (\<forall>j. unsettledSends l j = Some p \<longrightarrow> j = k) \<longrightarrow>
      settlementsOf p (promiseLog (fold private_dispositionReceived ds l)) =
        settlementsOf p (promiseLog l) @
        (case find (\<lambda>d. covers d k) ds of
           None \<Rightarrow> []
         | Some d \<Rightarrow>
             [case d_state d of
                Some (Rejected e) \<Rightarrow> Rejected_with (RemoteError e)
              | _ \<Rightarrow> Resolved (d_state d)])"
  proof
    assume h: "unsettledSends l k = Some p \<and> (\<forall>j. unsettledSends l j = Some p \<longrightarrow> j = k)"
    then have h1: "unsettledSends l k = Some p" and h2: "\<forall>j. unsettledSends l j = Some p \<longrightarrow> j = k"
      by simp_all
    show "settlementsOf p (promiseLog (fold private_dispositionReceived ds l)) =
        settlementsOf p (promiseLog l) @
        (case find (\<lambda>d. covers d k) ds of
           None \<Rightarrow> []
         | Some d \<Rightarrow>
             [case d_state d of
                Some (Rejected e) \<Rightarrow> Rejected_with (RemoteError e)
              | _ \<Rightarrow> Resolved (d_state d)])"
      unfolding dispositions_settle_once [OF h1 h2, of ds] deferredSender_cases ..
  qed
  have c: "\<not> d_settled d \<longrightarrow> private_dispositionReceived d l = l"
    by (simp add: private_dispositionReceived_def)
  from a a2 b c show ?thesis by (intro conjI)
qed

theorem settlement_on_disposition_witness:
  "hasConnection test_link \<and> canSend test_link \<and> callback test_link = OnSettle \<and>
   unsettledSends (snd (send 29 id ''abc'' 7 test_link)) = [1 \<mapsto> 7] \<and>
   unsettledSends (snd (sendMessage 29 id
       \<lparr> ps_message = ''abc'', ps_deliveryTag = 1, ps_promise = 7 \<rparr> None test_link)) = [1 \<mapsto> 7] \<and>
   settlementsOf 7 (promiseLog (fold private_dispositionReceived
       [\<lparr> d_first = 1, d_last = Absent, d_settled = False, d_state = Some Accepted \<rparr>,
        \<lparr> d_first = 2, d_last = Val 5, d_settled = True, d_state = Some Released \<rparr>,
        \<lparr> d_first = 0, d_last = Val 5, d_settled = True,
          d_state = Some (Rejected (AMQPError ''amqp:internal-error'' ''no'')) \<rparr>,
        \<lparr> d_first = 1, d_last = Null, d_settled = True, d_state = Some Accepted \<rparr>]
       (test_link\<lparr> unsettledSends := [1 \<mapsto> 7] \<rparr>))) =
     [Rejected_with (RemoteError (AMQPError ''amqp:internal-error'' ''no''))] \<and>
   private_dispositionReceived
       \<lparr> d_first = 1, d_last = Absent, d_settled = False, d_state = Some Accepted \<rparr>
       (test_link\<lparr> unsettledSends := [1 \<mapsto> 7] \<rparr>) =
     test_link\<lparr> unsettledSends := [1 \<mapsto> 7] \<rparr>"
proof -
  let ?l = "test_link\<lparr> unsettledSends := [1 \<mapsto> 7] \<rparr>"
  let ?d1 = "\<lparr> d_first = 1, d_last = Absent, d_settled = False, d_state = Some Accepted \<rparr>"
  let ?ds = "[?d1,
        \<lparr> d_first = 2, d_last = Val 5, d_settled = True, d_state = Some Released \<rparr>,
        \<lparr> d_first = 0, d_last = Val 5, d_settled = True,
          d_state = Some (Rejected (AMQPError ''amqp:internal-error'' ''no'')) \<rparr>,
        \<lparr> d_first = 1, d_last = Null, d_settled = True, d_state = Some Accepted \<rparr>]"
  have h1: "hasConnection test_link" "canSend test_link" "callback test_link = OnSettle"
    "(29::int) + int (length (decimal (sessionDeliveryTag test_link))) < connMaxFrameSize test_link"
    "nextOutgoingId (sessionParams test_link) = 1" "unsettledSends test_link = Map.empty"
    by (simp_all add: test_link_def canSend_def)
  have h0: "(29::int) + int (length (decimal (ps_deliveryTag
      \<lparr> ps_message = ''abc'', ps_deliveryTag = 1, ps_promise = 7 \<rparr>))) < connMaxFrameSize test_link"
    by (simp add: test_link_def)
  have h2: "unsettledSends ?l 1 = Some 7" "\<forall>j. unsettledSends ?l j = Some 7 \<longrightarrow> j = 1"
    "promiseLog ?l = []"
    by (simp_all add: test_link_def)
  have f: "find (\<lambda>d. covers d 1) ?ds =
      Some \<lparr> d_first = 0, d_last = Val 5, d_settled = True,
          d_state = Some (Rejected (AMQPError ''amqp:internal-error'' ''no'')) \<rparr>"
    by (simp add: covers_def last_or_first_def)
  have h3: "\<not> d_settled ?d1" by simp
  let ?ps = "\<lparr> ps_message = ''abc'', ps_deliveryTag = 1, ps_promise = 7 \<rparr>"
  note T1 = settlement_on_disposition [of test_link 29 id "''abc''" 7 ?ps 1 ?ds ?d1]
  note T2 = settlement_on_disposition [of ?l 29 id "''abc''" 7 ?ps 1 ?ds ?d1]
  have "unsettledSends (snd (sendMessage 29 id ?ps None test_link)) =
          (unsettledSends test_link)(nextOutgoingId (sessionParams test_link) \<mapsto> ps_promise ?ps)"
    using conjunct1 [OF conjunct2 [OF T1]] h1(1-3) h0 by blast
  then have a2: "unsettledSends (snd (sendMessage 29 id ?ps None test_link)) = [1 \<mapsto> 7]"
    by (simp add: h1(5,6))
  have "unsettledSends (snd (send 29 id ''abc'' 7 test_link)) =
          (unsettledSends test_link)(nextOutgoingId (sessionParams test_link) \<mapsto> 7)"
    using conjunct1 [OF T1] h1(1-4) by blast
  then have a: "unsettledSends (snd (send 29 id ''abc'' 7 test_link)) = [1 \<mapsto> 7]"
    by (simp only: h1(5,6))
  have "settlementsOf 7 (promiseLog (fold private_dispositionReceived ?ds ?l)) =
        settlementsOf 7 (promiseLog ?l) @
        (case find (\<lambda>d. covers d 1) ?ds of
           None \<Rightarrow> []
         | Some d \<Rightarrow>
             [case d_state d of
                Some (Rejected e) \<Rightarrow> Rejected_with (RemoteError e)
              | _ \<Rightarrow> Resolved (d_state d)])"
    using conjunct1 [OF conjunct2 [OF conjunct2 [OF T2]]] h2(1,2) by blast
  then have b: "settlementsOf 7 (promiseLog (fold private_dispositionReceived ?ds ?l)) =
       [Rejected_with (RemoteError (AMQPError ''amqp:internal-error'' ''no''))]"
    unfolding f h2(3) by (simp add: settlementsOf_def)
  have c: "private_dispositionReceived ?d1 ?l = ?l"
    using conjunct2 [OF conjunct2 [OF conjunct2 [OF T2]]] h3 by blast
  from h1(1-3) a a2 b c show ?thesis by (intro conjI)
qed

section \<open>Properties of the connection\<close>

subsection \<open>Negotiated frame size\<close>

lemma params_simps [simp]:
  "params (emit e c) = params c"
  "params (transport_do a c) = params c"
  "params (goto s c) = params c"
  by (simp_all add: emit_def transport_do_def goto_def)

lemma params_terminate [simp]: "params (private_terminate h c) = params c"
  by (simp add: private_terminate_def Let_def)

lemma params_fire [simp]: "params (fire ev c) = params c"
  by (cases ev)
     (simp_all add: fire_def Let_def private_connect_def sendHeader_def private_sendOpenFrame_def
        private_sendCloseFrame_def private_processError_def)

lemma maxFrameSize_after_open:
  "maxFrameSize (params (snd (processOpenFrame_body K f c))) =
     max minMaxFrameSize
       (min (maxFrameSize (params c)) (or_default (of_maxFrameSize f) defaultMaxFrameSize))"
  by (simp add: processOpenFrame_body_def Let_def private_ensureLocaleCompatibility_def max.commute)

lemma test_header_exchanged_eq:
  "test_header_exchanged =
     \<lparr> connSM = OPEN_SENT, trace = [DISCONNECTED, START, HDR_SENT, HDR_EXCH, OPEN_SENT],
       hasTransport = True, connected = False, conn_buffer = [], receivedHeader = True,
       params = \<lparr> maxFrameSize = 4294967295, channelMax = 65535, idleTimeout = 120000 \<rparr>,
       heartbeatInterval = None, emitted = [],
       transportLog = [Transport_connect, Transport_write amqpVersion,
          Transport_openFrame \<lparr> maxFrameSize = 4294967295, channelMax = 65535, idleTimeout = 120000 \<rparr>],
       warnings = [] \<rparr>"
  by (simp add: test_header_exchanged_def private_tryReceiveHeader_def Connection_open_def
        Connection_def fire_def goto_def private_connect_def transport_do_def sendHeader_def
        test_defaults_def or_default_def defaultMaxFrameSize_def amqpVersion_def slice_def clampIndex_def
        private_sendOpenFrame_def Let_def)

text \<open>
  C5, as stated, fails: with a peer that advertises 256, the negotiated size is 512, not
  the minimum of the two advertised values.
\<close>

theorem negotiated_maxFrameSize_counterexample:
  "maxFrameSize (params test_header_exchanged) = 4294967295 \<and>
   maxFrameSize (params (snd (processOpenFrame_body test_defaults
       \<lparr> of_maxFrameSize = Some 256, of_channelMax = None, of_idleTimeout = None,
         of_outgoingLocales = False, of_incomingLocales = False \<rparr> test_header_exchanged))) = 512 \<and>
   min (4294967295::int) 256 = 256"
  by (simp add: maxFrameSize_after_open test_header_exchanged_eq or_default_def
        minMaxFrameSize_def)

text \<open>
  C5 (amended): after the peer's \<open>open\<close> frame the negotiated \<open>maxFrameSize\<close> is the larger
  of 512 and the minimum of the local value and the peer's value, where a peer value that
  is missing or 0 counts as 4294967295. It is always at least 512, and it is the minimum
  of the two advertised values whenever both are at least 512.
\<close>

theorem negotiated_maxFrameSize_clamped:
  "maxFrameSize (params (snd (processOpenFrame_body K f c))) =
     max 512 (min (maxFrameSize (params c))
                (case of_maxFrameSize f of None \<Rightarrow> 4294967295
                 | Some v \<Rightarrow> if v = 0 then 4294967295 else v)) \<and>
   512 \<le> maxFrameSize (params (snd (processOpenFrame_body K f c))) \<and>
   (\<forall>v. of_maxFrameSize f = Some v \<and> 512 \<le> v \<and> 512 \<le> maxFrameSize (params c) \<longrightarrow>
      maxFrameSize (params (snd (processOpenFrame_body K f c))) = min (maxFrameSize (params c)) v)"
  by (auto simp: maxFrameSize_after_open or_default_def minMaxFrameSize_def
        defaultMaxFrameSize_def split: option.splits)

theorem negotiated_maxFrameSize_clamped_witness:
  "of_maxFrameSize \<lparr> of_maxFrameSize = Some 1024, of_channelMax = None, of_idleTimeout = None,
         of_outgoingLocales = False, of_incomingLocales = False \<rparr> = Some 1024 \<and>
   (512::int) \<le> 1024 \<and> 512 \<le> maxFrameSize (params test_header_exchanged) \<and>
   maxFrameSize (params (snd (processOpenFrame_body test_defaults
       \<lparr> of_maxFrameSize = Some 1024, of_channelMax = None, of_idleTimeout = None,
         of_outgoingLocales = False, of_incomingLocales = False \<rparr> test_header_exchanged))) = 1024"
  using negotiated_maxFrameSize_clamped [of test_defaults
       "\<lparr> of_maxFrameSize = Some 1024, of_channelMax = None, of_idleTimeout = None,
         of_outgoingLocales = False, of_incomingLocales = False \<rparr>" test_header_exchanged]
  by (simp add: test_header_exchanged_eq)

subsection \<open>Errors while reading a frame\<close>

lemma tryReceiveFrame_raised:
  "read (conn_buffer c) = Raised e rest \<Longrightarrow>
   private_tryReceiveFrame read c =
     (None, c\<lparr> conn_buffer := rest, warnings := warnings c @ [e] \<rparr>)"
  by (simp add: private_tryReceiveFrame_def)

lemma receiveAny_raised:
  "receivedHeader c \<Longrightarrow> read (conn_buffer c) = Raised e rest \<Longrightarrow>
   private_receiveAny K read c =
     Some (c\<lparr> conn_buffer := rest, warnings := warnings c @ [e] \<rparr>)"
  by (subst private_receiveAny.simps) (simp add: tryReceiveFrame_raised)

lemma test_opened_eq:
  "test_opened =
     \<lparr> connSM = OPENED, trace = [DISCONNECTED, START, HDR_SENT, HDR_EXCH, OPEN_SENT, OPENED],
       hasTransport = True, connected = True, conn_buffer = [], receivedHeader = True,
       params = \<lparr> maxFrameSize = 512, channelMax = 65535, idleTimeout = 120000 \<rparr>,
       heartbeatInterval = Some 15000, emitted = [Connected],
       transportLog = [Transport_connect, Transport_write amqpVersion,
          Transport_openFrame \<lparr> maxFrameSize = 4294967295, channelMax = 65535, idleTimeout = 120000 \<rparr>],
       warnings = [] \<rparr>"
  by (simp add: test_opened_def test_header_exchanged_eq processOpenFrame_body_def fire_def
        goto_def Let_def or_default_def minMaxFrameSize_def defaultMaxFrameSize_def test_defaults_def
        private_ensureLocaleCompatibility_def emit_def)

lemma read_unknown_prefix_frame:
  "FrameReader_read unknown_prefix_decode unknown_prefix_frame =
     Raised (MalformedPayloadError ''Unknown code prefix: 0x10'') []"
  by (simp add: FrameReader_read_def unknown_prefix_decode_def unknown_prefix_frame_def
        readUInt32BE_def)

text \<open>
  C4, as stated, fails: when the frame reader throws on the buffered bytes of an opened
  connection, the connection stays \<open>OPENED\<close>, sends no close frame and emits no event; the
  error's message is only written as a warning.
\<close>

theorem frame_error_swallowed_counterexample:
  "private_receiveData test_defaults (FrameReader_read unknown_prefix_decode) unknown_prefix_frame test_opened =
     Some (test_opened\<lparr> conn_buffer := [], warnings := [MalformedPayloadError ''Unknown code prefix: 0x10''] \<rparr>) \<and>
   connSM (test_opened\<lparr> conn_buffer := [], warnings := [MalformedPayloadError ''Unknown code prefix: 0x10''] \<rparr>) = OPENED \<and>
   emitted (test_opened\<lparr> conn_buffer := [], warnings := [MalformedPayloadError ''Unknown code prefix: 0x10''] \<rparr>) =
     [Connected] \<and>
   transportLog (test_opened\<lparr> conn_buffer := [], warnings := [MalformedPayloadError ''Unknown code prefix: 0x10''] \<rparr>) =
     [Transport_connect, Transport_write amqpVersion,
      Transport_openFrame \<lparr> maxFrameSize = 4294967295, channelMax = 65535, idleTimeout = 120000 \<rparr>]"
proof -
  have b: "conn_buffer test_opened = []" "receivedHeader test_opened" "warnings test_opened = []"
    by (simp_all add: test_opened_eq)
  have "private_receiveData test_defaults (FrameReader_read unknown_prefix_decode) unknown_prefix_frame test_opened =
     Some (test_opened\<lparr> conn_buffer := [], warnings := [MalformedPayloadError ''Unknown code prefix: 0x10''] \<rparr>)"
    using receiveAny_raised [of "test_opened\<lparr> conn_buffer := unknown_prefix_frame \<rparr>"
        "FrameReader_read unknown_prefix_decode" "MalformedPayloadError ''Unknown code prefix: 0x10''"
        "[]" test_defaults]
    by (simp add: private_receiveData_def b read_unknown_prefix_frame)
  then show ?thesis by (simp add: test_opened_eq)
qed

text \<open>
  C4 (amended): when reading a frame throws, \<open>_tryReceiveFrame\<close> catches the error, writes
  its message with \<open>console.warn\<close> and returns \<open>undefined\<close>; the receive loop stops; apart
  from the buffer (as the reader left it) and the warning the connection is unchanged: no
  close frame, no state change, no \<open>ErrorReceived\<close> event.
\<close>

theorem frame_error_is_only_warned:
  "(read (conn_buffer c) = Raised e rest \<longrightarrow>
      private_tryReceiveFrame read c =
        (None, c\<lparr> conn_buffer := rest, warnings := warnings c @ [e] \<rparr>)) \<and>
   (receivedHeader c \<and> read (conn_buffer c) = Raised e rest \<longrightarrow>
      private_receiveAny K read c =
        Some (c\<lparr> conn_buffer := rest, warnings := warnings c @ [e] \<rparr>))"
  using tryReceiveFrame_raised [of read c e rest] receiveAny_raised [of c read e rest K]
  by blast

theorem frame_error_is_only_warned_witness:
  "receivedHeader (test_opened\<lparr> conn_buffer := unknown_prefix_frame \<rparr>) \<and>
   FrameReader_read unknown_prefix_decode
       (conn_buffer (test_opened\<lparr> conn_buffer := unknown_prefix_frame \<rparr>)) =
     Raised (MalformedPayloadError ''Unknown code prefix: 0x10'') [] \<and>
   private_tryReceiveFrame (FrameReader_read unknown_prefix_decode)
       (test_opened\<lparr> conn_buffer := unknown_prefix_frame \<rparr>) =
     (None, test_opened\<lparr> conn_buffer := [], warnings := [MalformedPayloadError ''Unknown code prefix: 0x10''] \<rparr>) \<and>
   private_receiveAny test_defaults (FrameReader_read unknown_prefix_decode)
       (test_opened\<lparr> conn_buffer := unknown_prefix_frame \<rparr>) =
     Some (test_opened\<lparr> conn_buffer := [], warnings := [MalformedPayloadError ''Unknown code prefix: 0x10''] \<rparr>)"
  using frame_error_is_only_warned [of "FrameReader_read unknown_prefix_decode"
      "test_opened\<lparr> conn_buffer := unknown_prefix_frame \<rparr>"
      "MalformedPayloadError ''Unknown code prefix: 0x10''" "[]" test_defaults]
  by (simp add: read_unknown_prefix_frame test_opened_eq)

subsection \<open>Invalid protocol header\<close>


lemma length_amqpVersion [simp]: "length amqpVersion = 8"
  by (simp add: amqpVersion_def)


























section \<open>Properties of the codec\<close>

lemma encode_null: "encode types JNull ft = ([Encoder ''null'' JNull], None)"
  by (simp add: encode.simps)

lemma encode_forced:
  "value \<noteq> JNull \<Longrightarrow> t \<noteq> [] \<Longrightarrow>
   encode types value (Some t) =
     (if types t then ([Encoder t value], None) else ([], Some (EncodingError t)))"
  by (simp add: encode.simps forced_def)

lemma encode_number:
  "encode types (JNumber n) None =
     (if types (number_typeName n) then ([Encoder (number_typeName n) (JNumber n)], None)
      else ([], Some (NotImplementedError (''encode('' @ number_typeName n @ '')''))))"
  by (simp add: encode.simps forced_def Let_def)

lemma number_typeName_cases:
  "\<bar>of_int i :: rat\<bar> < 2147483647 \<Longrightarrow> number_typeName (Finite (of_int i)) = ''int''"
  "2147483648 < \<bar>of_int i :: rat\<bar> \<Longrightarrow> number_typeName (Finite (of_int i)) = ''long''"
  "q \<noteq> of_int \<lfloor>q\<rfloor> \<Longrightarrow> number_typeName (Finite q) = ''double''"
  "number_typeName NotANumber = ''double''"
  "number_typeName PlusInfinity = ''double''"
  "number_typeName MinusInfinity = ''double''"
  by (simp_all add: number_typeName_def)

text \<open>
  C7, as stated, fails: for the value \<open>null\<close> a supplied forced type is not used (the null
  encoder is), also when the type is forced through a \<open>ForcedType\<close> object, and an
  unknown forced type raises nothing.
\<close>

theorem forced_type_counterexample:
  "spec_types ''uint'' \<and>
   encode spec_types JNull (Some ''uint'') = ([Encoder ''null'' JNull], None) \<and>
   encode spec_types (JForcedType ''uint'' JNull) None = ([Encoder ''null'' JNull], None) \<and>
   \<not> spec_types ''no-such-type'' \<and>
   encode spec_types JNull (Some ''no-such-type'') = ([Encoder ''null'' JNull], None)"
  by (simp add: spec_types_def encode_null forced_def
        encode.simps [of _ "JForcedType ''uint'' JNull"]
        encodeObject.simps [of _ "JForcedType ''uint'' JNull"])

text \<open>
  C7 (amended): without a forced type, a whole number of magnitude below 2147483647 goes
  to the \<open>int\<close> encoder and one of magnitude above 2147483648 to the \<open>long\<close> encoder; a
  number that is not whole (also \<open>NaN\<close> and the infinities) goes to \<open>double\<close>. The value
  \<open>null\<close> always goes to the null encoder. For any other value a forced type that the type
  table has selects that encoder whatever the value is, and one that the table lacks
  raises \<open>EncodingError\<close>.
\<close>

theorem encoder_choice:
  "(types ''int'' \<and> \<bar>of_int i :: rat\<bar> < 2147483647 \<longrightarrow>
      encode types (JNumber (Finite (of_int i))) None =
        ([Encoder ''int'' (JNumber (Finite (of_int i)))], None)) \<and>
   (types ''long'' \<and> 2147483648 < \<bar>of_int i :: rat\<bar> \<longrightarrow>
      encode types (JNumber (Finite (of_int i))) None =
        ([Encoder ''long'' (JNumber (Finite (of_int i)))], None)) \<and>
   (types ''double'' \<and> (case n of Finite q \<Rightarrow> q \<noteq> of_int \<lfloor>q\<rfloor> | _ \<Rightarrow> True) \<longrightarrow>
      encode types (JNumber n) None = ([Encoder ''double'' (JNumber n)], None)) \<and>
   encode types JNull ft = ([Encoder ''null'' JNull], None) \<and>
   (value \<noteq> JNull \<and> t \<noteq> [] \<and> types t \<longrightarrow>
      encode types value (Some t) = ([Encoder t value], None)) \<and>
   (value \<noteq> JNull \<and> t \<noteq> [] \<and> \<not> types t \<longrightarrow>
      encode types value (Some t) = ([], Some (EncodingError t)))"
proof -
  have d: "(case n of Finite q \<Rightarrow> q \<noteq> of_int \<lfloor>q\<rfloor> | _ \<Rightarrow> True) \<Longrightarrow> number_typeName n = ''double''"
    by (cases n) (simp_all add: number_typeName_cases)
  show ?thesis
    using encode_forced [of "value" t types] d
    by (simp add: encode_number number_typeName_cases encode_null)
qed

theorem encoder_choice_witness:
  "encode spec_types (JNumber (Finite 5)) None = ([Encoder ''int'' (JNumber (Finite 5))], None) \<and>
   encode spec_types (JNumber (Finite 4294967296)) None =
     ([Encoder ''long'' (JNumber (Finite 4294967296))], None) \<and>
   encode spec_types (JNumber (Finite (5 / 2))) None =
     ([Encoder ''double'' (JNumber (Finite (5 / 2)))], None) \<and>
   encode spec_types (JString ''7'') (Some ''uint'') = ([Encoder ''uint'' (JString ''7'')], None) \<and>
   encode spec_types (JNumber (Finite 7)) (Some ''no-such-type'') =
     ([], Some (EncodingError ''no-such-type''))"
proof -
  have t: "spec_types ''int''" "spec_types ''long''" "spec_types ''double''" "spec_types ''uint''"
    "\<not> spec_types ''no-such-type''"
    by (simp_all add: spec_types_def)
  have f: "(5 / 2 :: rat) \<noteq> of_int \<lfloor>5 / 2 :: rat\<rfloor>"
  proof -
    have "\<lfloor>5 / 2 :: rat\<rfloor> = 2" by (simp add: floor_eq_iff)
    then show ?thesis by simp
  qed
  from encoder_choice [of spec_types 5 "Finite (5 / 2)" None "JString ''7''" "''uint''"]
       encoder_choice [of spec_types 4294967296 "Finite (5 / 2)" None "JNumber (Finite 7)" "''no-such-type''"]
       t f
  show ?thesis by simp
qed

end
